theory Spec2Isabelle
  imports Complex_Main "HOL-Library.Sublist"
begin

section \<open>GPS vehicle tracker (main.py): strings, serial channels and the clock\<close>

text \<open>
  A Python \<open>str\<close> and a Python \<open>bytes\<close> value are both modelled as \<open>string\<close>, the list of
  the bytes of the UTF-8 encoding; \<open>message.encode('utf-8')\<close> is therefore the identity.
  The substring test \<open>needle in haystack\<close> is \<open>str_in needle haystack\<close>.
\<close>

fun str_in :: "string \<Rightarrow> string \<Rightarrow> bool" where
  "str_in needle [] = (needle = [])"
| "str_in needle (c # cs) = (prefix needle (c # cs) \<or> str_in needle cs)"

text \<open>\<open>str.lower()\<close> of MicroPython: the letters A to Z are mapped to a to z.\<close>

definition lower_char :: "char \<Rightarrow> char" where
  "lower_char c =
     (if (65::nat) \<le> of_char c \<and> of_char c \<le> (90::nat) then char_of (of_char c + (32::nat)) else c)"

definition lower :: "string \<Rightarrow> string" where
  "lower s = map lower_char s"

text \<open>\<open>str.strip()\<close>: leading and trailing white space (space, tab, LF, VT, FF, CR) removed.\<close>

definition is_space :: "char \<Rightarrow> bool" where
  "is_space c = (of_char c = (32::nat) \<or> ((9::nat) \<le> of_char c \<and> of_char c \<le> (13::nat)))"

definition strip :: "string \<Rightarrow> string" where
  "strip s = rev (dropWhile is_space (rev (dropWhile is_space s)))"

text \<open>
  \<open>bytes.decode('utf-8', 'ignore')\<close> with the meaning the Python library reference gives to
  the error handler \<open>ignore\<close>: well-formed UTF-8 sequences are kept, every other byte is
  dropped. \<open>utf8_len\<close> is the length of the well-formed sequence at the head of the input,
  0 when there is none.
\<close>

definition in_range :: "nat \<Rightarrow> nat \<Rightarrow> char \<Rightarrow> bool" where
  "in_range lo hi c = (lo \<le> of_char c \<and> of_char c \<le> hi)"

fun utf8_len :: "string \<Rightarrow> nat" where
  "utf8_len [] = 0"
| "utf8_len (b # bs) =
     (if in_range 0 127 b then 1
      else if in_range 194 223 b then
        (case bs of c1 # _ \<Rightarrow> if in_range 128 191 c1 then 2 else 0 | _ \<Rightarrow> 0)
      else if in_range 224 239 b then
        (case bs of c1 # c2 # _ \<Rightarrow>
           if in_range (if of_char b = (224::nat) then 160 else 128)
                       (if of_char b = (237::nat) then 159 else 191) c1
              \<and> in_range 128 191 c2 then 3 else 0
         | _ \<Rightarrow> 0)
      else if in_range 240 244 b then
        (case bs of c1 # c2 # c3 # _ \<Rightarrow>
           if in_range (if of_char b = (240::nat) then 144 else 128)
                       (if of_char b = (244::nat) then 143 else 191) c1
              \<and> in_range 128 191 c2 \<and> in_range 128 191 c3 then 4 else 0
         | _ \<Rightarrow> 0)
      else 0)"

function decode_ignore :: "string \<Rightarrow> string" where
  "decode_ignore [] = []"
| "decode_ignore (b # bs) =
     (if utf8_len (b # bs) = 0 then decode_ignore bs
      else take (utf8_len (b # bs)) (b # bs) @ decode_ignore (drop (utf8_len (b # bs) - 1) bs))"
  by pat_completeness auto
termination
  by (relation "measure length") auto

subsection \<open>The clock\<close>

text \<open>
  \<open>time.ticks_ms()\<close> of MicroPython counts milliseconds modulo \<open>2 ^ 30\<close>, and
  \<open>time.ticks_diff(a, b)\<close> is the signed difference of two such readings, taken in
  \<open>[- 2 ^ 29, 2 ^ 29)\<close>.
\<close>

definition TICKS_PERIOD :: int where
  "TICKS_PERIOD = 2 ^ 30"

definition ticks_diff :: "int \<Rightarrow> int \<Rightarrow> int" where
  "ticks_diff a b = (a - b + TICKS_PERIOD div 2) mod TICKS_PERIOD - TICKS_PERIOD div 2"

subsection \<open>The hardware\<close>

text \<open>
  The board as the program sees it. \<open>now\<close> is the time since power-up in milliseconds;
  only \<open>time.sleep_ms\<close> lets it pass. A serial receive line is a schedule: the entry
  \<open>(t, bs)\<close> delivers the bytes \<open>bs\<close> at time \<open>t\<close>, and what has been delivered stays
  buffered until it is read. \<open>gsm_tx\<close> lists the arguments of the calls of
  \<open>gsm_uart.write\<close>, oldest first. \<open>has_select\<close> tells whether \<open>import select\<close> succeeds.
\<close>

record world =
  now :: int
  gsm_rx :: "(int \<times> string) list"
  gsm_tx :: "string list"
  gps_rx :: "(int \<times> string) list"
  stdin :: "(int \<times> char) list"
  has_select :: bool

definition ticks_ms :: "world \<Rightarrow> int" where
  "ticks_ms w = now w mod TICKS_PERIOD"

definition sleep_ms :: "int \<Rightarrow> world \<Rightarrow> world" where
  "sleep_ms d w = w\<lparr>now := now w + d\<rparr>"

definition arrived :: "int \<Rightarrow> (int \<times> string) list \<Rightarrow> string" where
  "arrived t rx = concat (map snd (filter (\<lambda>e. fst e \<le> t) rx))"

definition pending :: "int \<Rightarrow> (int \<times> string) list \<Rightarrow> (int \<times> string) list" where
  "pending t rx = filter (\<lambda>e. \<not> fst e \<le> t) rx"

text \<open>\<open>gsm_uart.any()\<close>, \<open>gsm_uart.read()\<close> (the empty string stands for \<open>None\<close>) and
  \<open>gsm_uart.write(bs)\<close>.\<close>

definition gsm_any :: "world \<Rightarrow> bool" where
  "gsm_any w = (arrived (now w) (gsm_rx w) \<noteq> [])"

definition gsm_read :: "world \<Rightarrow> string \<times> world" where
  "gsm_read w = (arrived (now w) (gsm_rx w), w\<lparr>gsm_rx := pending (now w) (gsm_rx w)\<rparr>)"

definition gsm_write :: "string \<Rightarrow> world \<Rightarrow> world" where
  "gsm_write bs w = w\<lparr>gsm_tx := gsm_tx w @ [bs]\<rparr>"

definition gps_any :: "world \<Rightarrow> bool" where
  "gps_any w = (arrived (now w) (gps_rx w) \<noteq> [])"

definition gps_read :: "world \<Rightarrow> string \<times> world" where
  "gps_read w = (arrived (now w) (gps_rx w), w\<lparr>gps_rx := pending (now w) (gps_rx w)\<rparr>)"

text \<open>\<open>select.select([sys.stdin], [], [], 0)[0]\<close> and \<open>sys.stdin.read(1)\<close>: the console
  delivers single characters, and a read takes the oldest one that has been delivered.\<close>

definition stdin_ready :: "world \<Rightarrow> bool" where
  "stdin_ready w = (filter (\<lambda>e. fst e \<le> now w) (stdin w) \<noteq> [])"

fun take_first :: "int \<Rightarrow> (int \<times> char) list \<Rightarrow> string \<times> (int \<times> char) list" where
  "take_first t [] = ([], [])"
| "take_first t (e # es) =
     (if fst e \<le> t then ([snd e], es)
      else (fst (take_first t es), e # snd (take_first t es)))"

definition stdin_read1 :: "world \<Rightarrow> string \<times> world" where
  "stdin_read1 w = (fst (take_first (now w) (stdin w)), w\<lparr>stdin := snd (take_first (now w) (stdin w))\<rparr>)"

subsection \<open>Facts about the clock and the serial lines\<close>

lemma ticks_diff_sleep:
  assumes "ticks_diff (ticks_ms w) s + d < 2 ^ 29" and "0 \<le> d"
  shows "ticks_diff (ticks_ms (sleep_ms d w)) s = ticks_diff (ticks_ms w) s + d"
proof -
  define x where "x = (ticks_ms w - s + TICKS_PERIOD div 2) mod TICKS_PERIOD"
  have x0: "0 \<le> x"
    by (simp add: x_def TICKS_PERIOD_def)
  have d: "ticks_diff (ticks_ms w) s = x - 2 ^ 29"
    by (simp add: ticks_diff_def x_def TICKS_PERIOD_def)
  have "(ticks_ms (sleep_ms d w) - s + TICKS_PERIOD div 2) mod TICKS_PERIOD
        = (now w + d - s + TICKS_PERIOD div 2) mod TICKS_PERIOD"
    unfolding ticks_ms_def sleep_ms_def
    by (intro mod_add_cong mod_diff_cong) simp_all
  also have "\<dots> = ((now w - s + TICKS_PERIOD div 2) + d) mod TICKS_PERIOD"
    by (simp add: algebra_simps)
  also have "\<dots> = (x + d) mod TICKS_PERIOD"
  proof -
    have "(now w - s + TICKS_PERIOD div 2) mod TICKS_PERIOD = x mod TICKS_PERIOD"
      unfolding x_def ticks_ms_def
      by (simp only: mod_mod_trivial) (intro mod_add_cong mod_diff_cong; simp)
    then show ?thesis
      by (rule mod_add_cong) simp
  qed
  also have "\<dots> = x + d"
    using assms x0 d by (intro mod_pos_pos_trivial) (auto simp: TICKS_PERIOD_def)
  finally show ?thesis
    using d by (simp add: ticks_diff_def TICKS_PERIOD_def)
qed

lemma ticks_diff_self: "ticks_diff (ticks_ms w) (ticks_ms w) = 0"
  by (simp add: ticks_diff_def TICKS_PERIOD_def)

lemma ticks_diff_elapsed:
  assumes "0 \<le> d" and "d < 2 ^ 29"
  shows "ticks_diff (ticks_ms (w\<lparr>now := now w + d\<rparr>)) (ticks_ms w) = d"
proof -
  have "ticks_diff (ticks_ms (sleep_ms d w)) (ticks_ms w) = ticks_diff (ticks_ms w) (ticks_ms w) + d"
    using assms by (intro ticks_diff_sleep) (simp_all add: ticks_diff_self)
  then show ?thesis
    by (simp add: ticks_diff_self sleep_ms_def)
qed

lemma now_gsm_read [simp]: "now (snd (gsm_read w)) = now w"
  by (simp add: gsm_read_def)

lemma ticks_ms_gsm_read [simp]: "ticks_ms (snd (gsm_read w)) = ticks_ms w"
  by (simp add: ticks_ms_def)

lemma gsm_tx_gsm_read [simp]: "gsm_tx (snd (gsm_read w)) = gsm_tx w"
  by (simp add: gsm_read_def)

lemma gsm_tx_sleep_ms [simp]: "gsm_tx (sleep_ms d w) = gsm_tx w"
  by (simp add: sleep_ms_def)

lemma gsm_tx_gsm_write [simp]: "gsm_tx (gsm_write bs w) = gsm_tx w @ [bs]"
  by (simp add: gsm_write_def)

lemma ticks_ms_gsm_write [simp]: "ticks_ms (gsm_write bs w) = ticks_ms w"
  by (simp add: ticks_ms_def gsm_write_def)

lemma sleep_ms_later:
  assumes "ticks_diff (ticks_ms w) s < 10000" and "0 < d" and "d \<le> 1000"
  shows "ticks_diff (ticks_ms w) s < ticks_diff (ticks_ms (sleep_ms d w)) s"
proof -
  have "ticks_diff (ticks_ms (sleep_ms d w)) s = ticks_diff (ticks_ms w) s + d"
    using assms by (intro ticks_diff_sleep) simp_all
  then show ?thesis
    using assms by simp
qed

lemma sleep_ms_read_later:
  assumes "ticks_diff (ticks_ms w) s < 10000" and "0 < d" and "d \<le> 1000"
  shows "ticks_diff (ticks_ms w) s < ticks_diff (ticks_ms (sleep_ms d (snd (gsm_read w)))) s"
  using sleep_ms_later [of "snd (gsm_read w)" s d] assms by simp

section \<open>AT transport\<close>

text \<open>
  The polling loop of \<open>send_at_command\<close>, entered with the time \<open>start_time\<close> the loop
  was started at. With a bound of \<open>2 ^ 29\<close> ms or more \<open>ticks_diff\<close> never reaches the
  bound, and the loop does not end on a silent line: not returning is the value \<open>None\<close>.
\<close>

partial_function (option) at_wait :: "int \<Rightarrow> int \<Rightarrow> int \<Rightarrow> world \<Rightarrow> (string \<times> world) option" where
  "at_wait start_time wait_time_ms max_wait_ms w =
     (if ticks_diff (ticks_ms w) start_time < max_wait_ms then
        (if gsm_any w then
           (let (chunk, w1) = gsm_read w;
                response = (if chunk \<noteq> [] then decode_ignore chunk else []);
                w2 = sleep_ms wait_time_ms w1
            in if gsm_any w2 then
                 (let (chunk2, w3) = gsm_read w2
                  in Some (if chunk2 \<noteq> [] then response @ decode_ignore chunk2 else response, w3))
               else Some (response, w2))
         else at_wait start_time wait_time_ms max_wait_ms (sleep_ms 100 w))
      else Some ([], w))"

declare at_wait.simps [code]

definition send_at_command :: "string \<Rightarrow> int \<Rightarrow> int \<Rightarrow> world \<Rightarrow> (string \<times> world) option" where
  "send_at_command command wait_time_ms max_wait_ms w =
     (let w1 = (if gsm_any w then snd (gsm_read w) else w);
          w2 = gsm_write (command @ [CHR 0x0D, CHR 0x0A]) w1
      in at_wait (ticks_ms w2) wait_time_ms max_wait_ms w2)"

definition check_gsm_module :: "world \<Rightarrow> (bool \<times> world) option" where
  "check_gsm_module w =
     (case send_at_command ''AT'' 1000 2000 w of
        None \<Rightarrow> None
      | Some (response, w') \<Rightarrow> Some (str_in ''OK'' response, w'))"

section \<open>The GPS decoder and the program state\<close>

text \<open>
  \<open>MicropyGPS\<close> is a library outside this repository. Its object is modelled by the
  attributes the program reads: \<open>fix_type\<close>, \<open>latitude[0]\<close> and \<open>longitude[0]\<close> (\<open>None\<close>
  or a number), the results of \<open>latitude_string()\<close> and \<open>longitude_string()\<close>, \<open>date\<close>
  (day, month, year) and \<open>timestamp\<close> (hours, minutes, seconds); \<open>sentence_buf\<close> stands
  for the working state of the decoder. Coordinates and seconds are floats in the program
  and reals here: the program only compares them with 0, truncates and prints them.
\<close>

record gps =
  fix_type :: int
  latitude :: "real option"
  longitude :: "real option"
  latitude_string :: string
  longitude_string :: string
  date :: "int \<times> int \<times> int"
  timestamp :: "int option \<times> int \<times> real"
  sentence_buf :: string

text \<open>What the program takes from outside: \<open>gps_parser.update(char)\<close> and the text Python
  prints for a float in an f-string.\<close>

record ext =
  gps_update :: "char \<Rightarrow> gps \<Rightarrow> gps"
  float_str :: "real \<Rightarrow> string"

record state =
  gsm_connected :: bool
  gps_fix_acquired :: bool
  gsm_initialized :: bool
  gps_parser :: gps
  last_location_sent_ms :: int
  last_gsm_check_ms :: int
  input_buffer :: string
  gsm_led :: bool
  gps_led :: bool
  world :: world

definition ADMIN_NUMBER :: string where
  "ADMIN_NUMBER = ''+9186********''"

definition LOCATION_INTERVAL_MS :: int where
  "LOCATION_INTERVAL_MS = 1 * 60 * 1000"

definition GSM_CHECK_INTERVAL_MS :: int where
  "GSM_CHECK_INTERVAL_MS = 10000"

section \<open>Sending an SMS\<close>

text \<open>The loop waiting for the prompt; it returns \<open>prompt_received\<close>, the accumulated
  \<open>response\<close> and the hardware.\<close>

function wait_prompt :: "int \<Rightarrow> string \<Rightarrow> world \<Rightarrow> bool \<times> string \<times> world" where
  "wait_prompt start_time response w =
     (if ticks_diff (ticks_ms w) start_time < 5000 then
        (if gsm_any w then
           (if fst (gsm_read w) \<noteq> [] then
              (if str_in ''>'' (response @ decode_ignore (fst (gsm_read w)))
               then (True, response @ decode_ignore (fst (gsm_read w)), snd (gsm_read w))
               else wait_prompt start_time (response @ decode_ignore (fst (gsm_read w)))
                      (sleep_ms 50 (snd (gsm_read w))))
            else wait_prompt start_time response (sleep_ms 50 (snd (gsm_read w))))
         else wait_prompt start_time response (sleep_ms 50 w))
      else (False, response, w))"
  by pat_completeness auto

termination
  by (relation "measure (\<lambda>(start_time, response, w). nat (5000 - ticks_diff (ticks_ms w) start_time))")
     (simp_all add: sleep_ms_later sleep_ms_read_later)

text \<open>The loop waiting for the confirmation; it returns the result of \<open>send_sms\<close>, the
  accumulated \<open>confirmation\<close> and the hardware.\<close>

function wait_confirm :: "int \<Rightarrow> string \<Rightarrow> world \<Rightarrow> bool \<times> string \<times> world" where
  "wait_confirm start_time confirmation w =
     (if ticks_diff (ticks_ms w) start_time < 10000 then
        (if gsm_any w then
           (if fst (gsm_read w) \<noteq> [] then
              (if str_in ''+CMGS:'' (confirmation @ decode_ignore (fst (gsm_read w)))
                  \<or> str_in ''OK'' (confirmation @ decode_ignore (fst (gsm_read w)))
               then (True, confirmation @ decode_ignore (fst (gsm_read w)), snd (gsm_read w))
               else if str_in ''ERROR'' (confirmation @ decode_ignore (fst (gsm_read w)))
               then (False, confirmation @ decode_ignore (fst (gsm_read w)), snd (gsm_read w))
               else wait_confirm start_time (confirmation @ decode_ignore (fst (gsm_read w)))
                      (sleep_ms 100 (snd (gsm_read w))))
            else wait_confirm start_time confirmation (sleep_ms 100 (snd (gsm_read w))))
         else wait_confirm start_time confirmation (sleep_ms 100 w))
      else (False, confirmation, w))"
  by pat_completeness auto
termination
  by (relation "measure (\<lambda>(start_time, confirmation, w). nat (10000 - ticks_diff (ticks_ms w) start_time))")
     (simp_all add: sleep_ms_later sleep_ms_read_later)

definition ESC :: string where
  "ESC = [CHR 0x1B]"

definition CTRL_Z :: string where
  "CTRL_Z = [CHR 0x1A]"

definition cmgs_command :: "string \<Rightarrow> string" where
  "cmgs_command number = ''AT+CMGS=\"'' @ number @ [CHR ''\"'', CHR 0x0D, CHR 0x0A]"

definition send_sms :: "string \<Rightarrow> string \<Rightarrow> state \<Rightarrow> (bool \<times> state) option" where
  "send_sms number message s =
     (if \<not> gsm_connected s then Some (False, s)
      else
        (case send_at_command ''AT+CMGF=1'' 500 3000 (world s) of
           None \<Rightarrow> None
         | Some (_, w1) \<Rightarrow>
             (let w2 = gsm_write (cmgs_command number) w1;
                  (prompt_received, response, w3) = wait_prompt (ticks_ms w2) [] w2
              in if \<not> prompt_received then Some (False, s\<lparr>world := gsm_write ESC w3\<rparr>)
                 else
                   (let w4 = gsm_write message w3;
                        w5 = sleep_ms 100 w4;
                        w6 = gsm_write CTRL_Z w5;
                        (sent, confirmation, w7) = wait_confirm (ticks_ms w6) [] w6
                    in Some (sent, s\<lparr>world := w7\<rparr>)))))"

section \<open>The GPS fix tracker\<close>

definition has_valid_gps_data :: "gps \<Rightarrow> bool" where
  "has_valid_gps_data g =
     (if latitude g \<noteq> None \<and> longitude g \<noteq> None \<and> latitude g \<noteq> Some 0 \<and> longitude g \<noteq> Some 0
      then True else False)"

text \<open>The format \<open>:02d\<close> of an f-string: decimal digits, padded with zeros to width 2.\<close>

function str_of_nat :: "int \<Rightarrow> string" where
  "str_of_nat n =
     (if n < 10 then [char_of (48 + n)] else str_of_nat (n div 10) @ [char_of (48 + n mod 10)])"
  by pat_completeness auto
termination
  by (relation "measure nat") auto

definition format_02d :: "int \<Rightarrow> string" where
  "format_02d n =
     (if n < 0 then CHR ''-'' # str_of_nat (- n)
      else if n < 10 then CHR ''0'' # str_of_nat n
      else str_of_nat n)"

text \<open>\<open>int(x)\<close> of a float: truncation towards zero.\<close>

definition py_int :: "real \<Rightarrow> int" where
  "py_int x = (if 0 \<le> x then \<lfloor>x\<rfloor> else \<lceil>x\<rceil>)"

definition get_current_location_string :: "ext \<Rightarrow> gps \<Rightarrow> string" where
  "get_current_location_string e g =
     (if has_valid_gps_data g then
        (case (latitude g, longitude g, date g, timestamp g) of
           (Some lat, Some lon, (dt0, dt1, dt2), (ts0, ts1, ts2)) \<Rightarrow>
             (let lat_str = latitude_string g;
                  lon_str = longitude_string g;
                  timestamp_str =
                    (case ts0 of
                       Some h \<Rightarrow>
                         if dt0 \<noteq> 0 then
                           [CHR 0x0A] @ ''Time: '' @ format_02d dt0 @ ''/'' @ format_02d dt1 @ ''/20''
                             @ format_02d dt2 @ '' '' @ format_02d h @ '':'' @ format_02d ts1 @ '':''
                             @ format_02d (py_int ts2)
                         else [CHR 0x0A] @ ''Time: N/A''
                     | None \<Rightarrow> [CHR 0x0A] @ ''Time: N/A'');
                  maps_link = ''http://maps.google.com/maps?q='' @ float_str e lat @ '','' @ float_str e lon
              in ''Location: '' @ lat_str @ '', '' @ lon_str @ timestamp_str @ [CHR 0x0A] @ ''Map: ''
                   @ maps_link)
         | _ \<Rightarrow> ''GPS signal not available. Please wait.'')
      else ''GPS signal not available. Please wait.'')"

section \<open>The main loop\<close>

text \<open>
  One pass of the \<open>while True\<close> loop is \<open>tick\<close>; its five numbered parts are the functions
  below, in the order of the program. Output on the console (\<open>print\<close>) is not modelled, so
  \<open>print_debug_report\<close> and the command \<open>l\<close> leave the state as it is. No operation of the
  model raises, so the handlers \<open>except Exception\<close> have no branch here.
\<close>

definition process_gps :: "ext \<Rightarrow> state \<Rightarrow> state" where
  "process_gps e s =
     (if gps_any (world s) then
        (let (bytes, w1) = gps_read (world s);
             data = decode_ignore bytes
         in s\<lparr>gps_parser := foldl (\<lambda>g c. gps_update e c g) (gps_parser s) data, world := w1\<rparr>)
      else s)"

definition check_gps_fix :: "state \<Rightarrow> state option" where
  "check_gps_fix s =
     (if \<not> gps_fix_acquired s \<and> fix_type (gps_parser s) \<ge> 2 \<and> has_valid_gps_data (gps_parser s) then
        (let s1 = s\<lparr>gps_fix_acquired := True, gps_led := True\<rparr>
         in if gsm_connected s1 then
              map_option snd (send_sms ADMIN_NUMBER ''GPS fix acquired. Vehicle tracking active.'' s1)
            else Some s1)
      else Some s)"

text \<open>The registration check. The \<open>elif\<close> of the program only prints a message, so the
  two ways of not being registered are one branch here.\<close>

definition check_gsm_network :: "int \<Rightarrow> state \<Rightarrow> state option" where
  "check_gsm_network current_time_ms s =
     (if gsm_initialized s \<and> \<not> gsm_connected s then
        (if ticks_diff current_time_ms (last_gsm_check_ms s) \<ge> GSM_CHECK_INTERVAL_MS then
           (case send_at_command ''AT+CREG?'' 500 2000 (world s) of
              None \<Rightarrow> None
            | Some (response, w1) \<Rightarrow>
                (if str_in ''+CREG: 0,1'' response \<or> str_in ''+CREG: 0,5'' response then
                   (case send_sms ADMIN_NUMBER ''Vehicle Tracking System is online.''
                           (s\<lparr>world := w1, gsm_connected := True, gsm_led := True\<rparr>) of
                      None \<Rightarrow> None
                    | Some (_, s2) \<Rightarrow>
                        Some (s2\<lparr>last_location_sent_ms := current_time_ms,
                                 last_gsm_check_ms := current_time_ms\<rparr>))
                 else Some (s\<lparr>world := w1, last_gsm_check_ms := current_time_ms\<rparr>)))
         else Some s)
      else Some s)"

definition interval_report :: "ext \<Rightarrow> int \<Rightarrow> state \<Rightarrow> state option" where
  "interval_report e current_time_ms s =
     (if gsm_connected s \<and> gps_fix_acquired s \<and> has_valid_gps_data (gps_parser s) then
        (if ticks_diff current_time_ms (last_location_sent_ms s) \<ge> LOCATION_INTERVAL_MS then
           (case send_sms ADMIN_NUMBER (get_current_location_string e (gps_parser s)) s of
              None \<Rightarrow> None
            | Some (_, s1) \<Rightarrow> Some (s1\<lparr>last_location_sent_ms := current_time_ms\<rparr>))
         else Some s)
      else Some s)"

definition check_incoming_sms :: "ext \<Rightarrow> state \<Rightarrow> state option" where
  "check_incoming_sms e s =
     (if gsm_any (world s) then
        (let response = decode_ignore (fst (gsm_read (world s)));
             s1 = s\<lparr>world := snd (gsm_read (world s))\<rparr>
         in if str_in ''+CMT:'' response then
              (if str_in ''location'' (lower response) then
                 map_option snd (send_sms ADMIN_NUMBER (get_current_location_string e (gps_parser s1)) s1)
               else Some s1)
            else Some s1)
      else Some s)"

definition console_commands :: "state \<Rightarrow> state option" where
  "console_commands s =
     (if has_select (world s) \<and> stdin_ready (world s) then
        (let char = fst (stdin_read1 (world s));
             s1 = s\<lparr>world := snd (stdin_read1 (world s))\<rparr>
         in if char = [CHR 0x0A] \<or> char = [CHR 0x0D] then
              (let cmd = lower (strip (input_buffer s1));
                   s2 = s1\<lparr>input_buffer := []\<rparr>
               in if cmd = ''x'' then Some s2
                  else if cmd = ''t'' then
                    map_option snd (send_sms ADMIN_NUMBER ''Test message from Vehicle Tracker'' s2)
                  else if cmd = ''l'' then Some s2
                  else Some s2)
            else Some (s1\<lparr>input_buffer := input_buffer s1 @ char\<rparr>))
      else Some s)"

definition tick :: "ext \<Rightarrow> state \<Rightarrow> state option" where
  "tick e s =
     (let current_time_ms = ticks_ms (world s)
      in Option.bind (check_gps_fix (process_gps e s)) (\<lambda>s1.
         Option.bind (check_gsm_network current_time_ms s1) (\<lambda>s2.
         Option.bind (interval_report e current_time_ms s2) (\<lambda>s3.
         Option.bind (check_incoming_sms e s3) (\<lambda>s4.
         Option.bind (console_commands s4) (\<lambda>s5.
         Some (s5\<lparr>world := sleep_ms 50 (world s5)\<rparr>)))))))"

text \<open>\<open>n\<close> passes of the loop.\<close>

fun ticks :: "ext \<Rightarrow> nat \<Rightarrow> state \<Rightarrow> state option" where
  "ticks e 0 s = Some s"
| "ticks e (Suc n) s = Option.bind (tick e s) (ticks e n)"

text \<open>The start of the program, from the initial values of the globals to the first pass
  of the loop; \<open>g0\<close> is the decoder \<open>MicropyGPS(...)\<close> returns.\<close>

definition startup :: "gps \<Rightarrow> world \<Rightarrow> state option" where
  "startup g0 w =
     (case check_gsm_module w of
        None \<Rightarrow> None
      | Some (ok, w1) \<Rightarrow>
          (let s = \<lparr>gsm_connected = False, gps_fix_acquired = False, gsm_initialized = ok,
                    gps_parser = g0, last_location_sent_ms = 0, last_gsm_check_ms = 0,
                    input_buffer = [], gsm_led = False, gps_led = False, world = w1\<rparr>
           in if ok then
                Option.bind (send_at_command ''ATE0'' 500 3000 w1) (\<lambda>(_, w2).
                Option.bind (send_at_command ''AT+CMGF=1'' 500 3000 w2) (\<lambda>(_, w3).
                Option.bind (send_at_command ''AT+CNMI=2,1,0,0,0'' 500 3000 w3) (\<lambda>(_, w4).
                Some (s\<lparr>world := w4\<rparr>))))
              else Some s))"

section \<open>Facts about the modem driver\<close>

declare wait_prompt.simps [simp del] wait_confirm.simps [simp del] str_of_nat.simps [simp del]

lemma at_wait_total:
  assumes "max_wait_ms \<le> 2 ^ 29 - 100"
  shows "\<exists>r w'. at_wait start_time wait_time_ms max_wait_ms w = Some (r, w') \<and> gsm_tx w' = gsm_tx w"
proof (induction "nat (max_wait_ms - ticks_diff (ticks_ms w) start_time)" arbitrary: w rule: less_induct)
  case less
  show ?case
  proof (cases "ticks_diff (ticks_ms w) start_time < max_wait_ms")
    case False
    then show ?thesis by (subst at_wait.simps) simp
  next
    case True
    show ?thesis
    proof (cases "gsm_any w")
      case True
      with \<open>ticks_diff (ticks_ms w) start_time < max_wait_ms\<close> show ?thesis
        by (subst at_wait.simps) (simp add: Let_def gsm_read_def sleep_ms_def split: prod.splits)
    next
      case False
      have "ticks_diff (ticks_ms (sleep_ms 100 w)) start_time = ticks_diff (ticks_ms w) start_time + 100"
        using True assms by (intro ticks_diff_sleep) simp_all
      then have "\<exists>r w'. at_wait start_time wait_time_ms max_wait_ms (sleep_ms 100 w) = Some (r, w')
                  \<and> gsm_tx w' = gsm_tx (sleep_ms 100 w)"
        using True by (intro less) simp
      with True False show ?thesis by (subst at_wait.simps) simp
    qed
  qed
qed

lemma send_at_command_total:
  assumes "max_wait_ms \<le> 2 ^ 29 - 100"
  shows "\<exists>r w'. send_at_command command wait_time_ms max_wait_ms w = Some (r, w')
           \<and> gsm_tx w' = gsm_tx w @ [command @ [CHR 0x0D, CHR 0x0A]]"
proof -
  define w2 where "w2 = gsm_write (command @ [CHR 0x0D, CHR 0x0A]) (if gsm_any w then snd (gsm_read w) else w)"
  obtain r w' where "at_wait (ticks_ms w2) wait_time_ms max_wait_ms w2 = Some (r, w')" "gsm_tx w' = gsm_tx w2"
    using at_wait_total [OF assms] by blast
  then show ?thesis
    by (simp add: send_at_command_def Let_def w2_def)
qed

lemma wait_prompt_tx: "gsm_tx (snd (snd (wait_prompt start_time response w))) = gsm_tx w"
  by (induction start_time response w rule: wait_prompt.induct)
     (subst wait_prompt.simps, simp)

lemma wait_confirm_tx: "gsm_tx (snd (snd (wait_confirm start_time confirmation w))) = gsm_tx w"
  by (induction start_time confirmation w rule: wait_confirm.induct)
     (subst wait_confirm.simps, simp)

lemma send_sms_frame:
  "send_sms number message s = Some (ok, s') \<Longrightarrow> s' = s\<lparr>world := world s'\<rparr>"
  by (auto simp: send_sms_def Let_def split: if_splits option.splits prod.splits)

lemma send_sms_connected:
  assumes "gsm_connected s"
  obtains r1 w1 p response w3 w6 sent confirmation w7 where
    "send_at_command ''AT+CMGF=1'' 500 3000 (world s) = Some (r1, w1)"
    "gsm_tx w1 = gsm_tx (world s) @ [''AT+CMGF=1'' @ [CHR 0x0D, CHR 0x0A]]"
    "wait_prompt (ticks_ms w1) [] (gsm_write (cmgs_command number) w1) = (p, response, w3)"
    "gsm_tx w3 = gsm_tx w1 @ [cmgs_command number]"
    "w6 = gsm_write CTRL_Z (sleep_ms 100 (gsm_write message w3))"
    "wait_confirm (ticks_ms w6) [] w6 = (sent, confirmation, w7)"
    "gsm_tx w7 = gsm_tx w3 @ [message, CTRL_Z]"
    "send_sms number message s
       = Some (if p then (sent, s\<lparr>world := w7\<rparr>) else (False, s\<lparr>world := gsm_write ESC w3\<rparr>))"
proof -
  obtain r1 w1 where c: "send_at_command ''AT+CMGF=1'' 500 3000 (world s) = Some (r1, w1)"
      "gsm_tx w1 = gsm_tx (world s) @ [''AT+CMGF=1'' @ [CHR 0x0D, CHR 0x0A]]"
    using send_at_command_total [of 3000 "''AT+CMGF=1''" 500 "world s"] by auto
  define w2 where "w2 = gsm_write (cmgs_command number) w1"
  obtain p response w3 where wp: "wait_prompt (ticks_ms w1) [] w2 = (p, response, w3)"
    by (cases "wait_prompt (ticks_ms w1) [] w2") auto
  have tx3: "gsm_tx w3 = gsm_tx w1 @ [cmgs_command number]"
    using wait_prompt_tx [of "ticks_ms w1" "[]" w2] wp by (simp add: w2_def)
  define w6 where "w6 = gsm_write CTRL_Z (sleep_ms 100 (gsm_write message w3))"
  obtain sent confirmation w7 where wc: "wait_confirm (ticks_ms w6) [] w6 = (sent, confirmation, w7)"
    by (cases "wait_confirm (ticks_ms w6) [] w6") auto
  have tx7: "gsm_tx w7 = gsm_tx w3 @ [message, CTRL_Z]"
    using wait_confirm_tx [of "ticks_ms w6" "[]" w6] wc by (simp add: w6_def)
  have eq: "send_sms number message s
       = Some (if p then (sent, s\<lparr>world := w7\<rparr>) else (False, s\<lparr>world := gsm_write ESC w3\<rparr>))"
    using assms c wp wc by (simp add: send_sms_def Let_def w2_def w6_def)
  show thesis
    by (rule that [OF c(1) c(2) wp [unfolded w2_def] tx3 w6_def wc tx7 eq])
qed

lemma send_sms_returns: "\<exists>ok s'. send_sms number message s = Some (ok, s')"
proof (cases "gsm_connected s")
  case True
  then show ?thesis
    by (rule send_sms_connected [of s number message]) auto
next
  case False
  then show ?thesis by (auto simp: send_sms_def)
qed




lemma str_in_sublist: "str_in needle haystack = sublist needle haystack"
  by (induction haystack) (simp_all add: sublist_Cons_right)

lemma gsm_tx_stdin_read1 [simp]: "gsm_tx (snd (stdin_read1 w)) = gsm_tx w"
  by (simp add: stdin_read1_def)

lemma sublist_append_left: "sublist (a @ b) r \<Longrightarrow> sublist a r"
  unfolding sublist_def by (metis append.assoc)

lemma ticks_diff_exact:
  assumes "now w0 \<le> now w" and "now w - now w0 < 2 ^ 29"
  shows "ticks_diff (ticks_ms w) (ticks_ms w0) = now w - now w0"
proof -
  have "ticks_ms w = ticks_ms (w0\<lparr>now := now w0 + (now w - now w0)\<rparr>)"
    by (simp add: ticks_ms_def)
  then show ?thesis
    using ticks_diff_elapsed [of "now w - now w0" w0] assms by simp
qed

lemma arrived_silent:
  assumes "\<forall>e\<in>set rx. snd e = [] \<or> T \<le> fst e" and "t < T"
  shows "arrived t rx = []"
  using assms by (auto simp: arrived_def)

lemma at_wait_silent:
  assumes quiet: "\<forall>e\<in>set (gsm_rx w). snd e = [] \<or> now w0 + max_wait_ms \<le> fst e"
    and "now w0 \<le> now w" and "now w < now w0 + max_wait_ms + 100"
    and "max_wait_ms \<le> 2 ^ 29 - 100"
  shows "\<exists>w'. at_wait (ticks_ms w0) wait_time_ms max_wait_ms w = Some ([], w')
           \<and> gsm_tx w' = gsm_tx w \<and> now w0 + max_wait_ms \<le> now w'"
  using assms
proof (induction "nat (now w0 + max_wait_ms - now w)" arbitrary: w rule: less_induct)
  case less
  show ?case
  proof (cases "now w - now w0 < max_wait_ms")
    case False
    then have "\<not> ticks_diff (ticks_ms w) (ticks_ms w0) < max_wait_ms"
      using less.prems ticks_diff_exact [of w0 w] by simp
    then show ?thesis using False by (subst at_wait.simps) simp
  next
    case True
    then have d: "ticks_diff (ticks_ms w) (ticks_ms w0) < max_wait_ms"
      using less.prems ticks_diff_exact [of w0 w] by simp
    have "\<not> gsm_any w"
      using less.prems True arrived_silent [of "gsm_rx w" "now w0 + max_wait_ms" "now w"]
      by (simp add: gsm_any_def)
    moreover have "\<exists>w'. at_wait (ticks_ms w0) wait_time_ms max_wait_ms (sleep_ms 100 w) = Some ([], w')
           \<and> gsm_tx w' = gsm_tx (sleep_ms 100 w) \<and> now w0 + max_wait_ms \<le> now w'"
      using less.prems True by (intro less.hyps) (simp_all add: sleep_ms_def)
    ultimately show ?thesis
      using d by (subst at_wait.simps) simp
  qed
qed

lemma send_at_command_silent:
  assumes "\<forall>e\<in>set (gsm_rx w). snd e = [] \<or> fst e \<le> now w \<or> now w + max_wait_ms \<le> fst e"
    and "0 \<le> max_wait_ms" and "max_wait_ms \<le> 2 ^ 29 - 100"
  shows "\<exists>w'. send_at_command command wait_time_ms max_wait_ms w = Some ([], w')
           \<and> gsm_tx w' = gsm_tx w @ [command @ [CHR 0x0D, CHR 0x0A]]
           \<and> now w + max_wait_ms \<le> now w'"
proof -
  define w1 where "w1 = (if gsm_any w then snd (gsm_read w) else w)"
  define w2 where "w2 = gsm_write (command @ [CHR 0x0D, CHR 0x0A]) w1"
  have n: "now w2 = now w"
    by (simp add: w2_def w1_def gsm_write_def)
  have "\<forall>e\<in>set (gsm_rx w1). snd e = [] \<or> now w + max_wait_ms \<le> fst e"
  proof (cases "gsm_any w")
    case True
    then show ?thesis
      using assms(1) by (auto simp: w1_def gsm_read_def pending_def)
  next
    case False
    then have "\<forall>e\<in>set (gsm_rx w). fst e \<le> now w \<longrightarrow> snd e = []"
      by (auto simp: gsm_any_def arrived_def)
    then show ?thesis
      using assms(1) False by (auto simp: w1_def)
  qed
  then have "\<forall>e\<in>set (gsm_rx w2). snd e = [] \<or> now w2 + max_wait_ms \<le> fst e"
    using n by (simp add: w2_def gsm_write_def)
  then obtain w' where "at_wait (ticks_ms w2) wait_time_ms max_wait_ms w2 = Some ([], w')"
      "gsm_tx w' = gsm_tx w2" "now w2 + max_wait_ms \<le> now w'"
    using at_wait_silent [of w2 w2 max_wait_ms wait_time_ms] assms(2,3) by auto
  then show ?thesis
    using n by (simp add: send_at_command_def Let_def w2_def w1_def)
qed



lemma gsm_any_read: "gsm_any w \<Longrightarrow> fst (gsm_read w) \<noteq> []"
  by (simp add: gsm_any_def gsm_read_def)




section \<open>Facts about the main loop\<close>

text \<open>Every part of the loop returns, and what each one does to the flags, to the decoder
  and to the two time stamps.\<close>

lemma send_sms_fields:
  assumes "send_sms number message s = Some (ok, s')"
  shows "gsm_connected s' = gsm_connected s" "gps_fix_acquired s' = gps_fix_acquired s"
    "gsm_initialized s' = gsm_initialized s" "gps_parser s' = gps_parser s"
    "last_location_sent_ms s' = last_location_sent_ms s"
    "last_gsm_check_ms s' = last_gsm_check_ms s"
  using assms
  by (auto simp: send_sms_def Let_def split: if_splits option.splits prod.splits)

lemma process_gps_fields:
  "gsm_connected (process_gps e s) = gsm_connected s"
  "gps_fix_acquired (process_gps e s) = gps_fix_acquired s"
  "gsm_initialized (process_gps e s) = gsm_initialized s"
  "last_location_sent_ms (process_gps e s) = last_location_sent_ms s"
  "last_gsm_check_ms (process_gps e s) = last_gsm_check_ms s"
  "gsm_tx (world (process_gps e s)) = gsm_tx (world s)"
  by (simp_all add: process_gps_def Let_def gps_read_def split: prod.splits)

lemma check_gps_fix_total: "\<exists>s'. check_gps_fix s = Some s'"
  using send_sms_returns [of ADMIN_NUMBER "''GPS fix acquired. Vehicle tracking active.''"
      "s\<lparr>gps_fix_acquired := True, gps_led := True\<rparr>"]
  by (auto simp: check_gps_fix_def Let_def)

lemma check_gps_fix_fields:
  assumes "check_gps_fix s = Some s'"
  shows "gps_fix_acquired s'
           \<longleftrightarrow> gps_fix_acquired s \<or> (fix_type (gps_parser s) \<ge> 2 \<and> has_valid_gps_data (gps_parser s))"
    "gsm_connected s' = gsm_connected s" "gsm_initialized s' = gsm_initialized s"
    "gps_parser s' = gps_parser s" "last_location_sent_ms s' = last_location_sent_ms s"
    "last_gsm_check_ms s' = last_gsm_check_ms s"
  using assms
  by (auto simp: check_gps_fix_def Let_def dest: send_sms_fields split: if_splits)

lemma check_gsm_network_total: "\<exists>s'. check_gsm_network t s = Some s'"
proof -
  obtain r w1 where c: "send_at_command ''AT+CREG?'' 500 2000 (world s) = Some (r, w1)"
    using send_at_command_total [of 2000 "''AT+CREG?''" 500 "world s"] by auto
  obtain ok s2 where "send_sms ADMIN_NUMBER ''Vehicle Tracking System is online.''
      (s\<lparr>world := w1, gsm_connected := True, gsm_led := True\<rparr>) = Some (ok, s2)"
    using send_sms_returns by blast
  with c show ?thesis
    by (simp add: check_gsm_network_def)
qed

lemma check_gsm_network_fields:
  assumes "check_gsm_network t s = Some s'"
  shows "gsm_connected s \<longrightarrow> gsm_connected s'" "gps_fix_acquired s' = gps_fix_acquired s"
    "gsm_initialized s' = gsm_initialized s" "gps_parser s' = gps_parser s"
    "last_location_sent_ms s'
       = (if \<not> gsm_connected s \<and> gsm_connected s' then t else last_location_sent_ms s)"
  using assms
  by (auto simp: check_gsm_network_def dest: send_sms_fields
      split: if_splits option.splits prod.splits)

lemma interval_report_total: "\<exists>s'. interval_report e t s = Some s'"
proof -
  obtain ok s1 where "send_sms ADMIN_NUMBER (get_current_location_string e (gps_parser s)) s = Some (ok, s1)"
    using send_sms_returns by blast
  then show ?thesis
    by (simp add: interval_report_def)
qed

lemma interval_report_fields:
  assumes "interval_report e t s = Some s'"
  shows "gsm_connected s' = gsm_connected s" "gps_fix_acquired s' = gps_fix_acquired s"
    "gsm_initialized s' = gsm_initialized s" "gps_parser s' = gps_parser s"
    "last_location_sent_ms s'
       = (if gsm_connected s \<and> gps_fix_acquired s \<and> has_valid_gps_data (gps_parser s)
             \<and> ticks_diff t (last_location_sent_ms s) \<ge> LOCATION_INTERVAL_MS
          then t else last_location_sent_ms s)"
  using assms
  by (auto simp: interval_report_def dest: send_sms_fields split: if_splits option.splits prod.splits)

lemma check_incoming_sms_total: "\<exists>s'. check_incoming_sms e s = Some s'"
proof -
  obtain ok s1 where "send_sms ADMIN_NUMBER (get_current_location_string e (gps_parser s))
      (s\<lparr>world := snd (gsm_read (world s))\<rparr>) = Some (ok, s1)"
    using send_sms_returns by blast
  then show ?thesis
    by (simp add: check_incoming_sms_def Let_def)
qed

lemma check_incoming_sms_fields:
  assumes "check_incoming_sms e s = Some s'"
  shows "gsm_connected s' = gsm_connected s" "gps_fix_acquired s' = gps_fix_acquired s"
    "gsm_initialized s' = gsm_initialized s" "gps_parser s' = gps_parser s"
    "last_location_sent_ms s' = last_location_sent_ms s"
  using assms
  by (auto simp: check_incoming_sms_def Let_def dest: send_sms_fields split: if_splits)

lemma console_commands_total: "\<exists>s'. console_commands s = Some s'"
proof -
  obtain ok s1 where "send_sms ADMIN_NUMBER ''Test message from Vehicle Tracker''
      (s\<lparr>world := snd (stdin_read1 (world s)), input_buffer := []\<rparr>) = Some (ok, s1)"
    using send_sms_returns by blast
  then show ?thesis
    by (simp add: console_commands_def Let_def)
qed

lemma console_commands_fields:
  assumes "console_commands s = Some s'"
  shows "gsm_connected s' = gsm_connected s" "gps_fix_acquired s' = gps_fix_acquired s"
    "gsm_initialized s' = gsm_initialized s" "gps_parser s' = gps_parser s"
    "last_location_sent_ms s' = last_location_sent_ms s"
  using assms
  by (auto simp: console_commands_def Let_def dest: send_sms_fields split: if_splits)

lemma ticks_diff_refl: "ticks_diff t t = 0"
  by (simp add: ticks_diff_def TICKS_PERIOD_def)

text \<open>One pass of the loop returns; \<open>s1\<close> to \<open>s5\<close> are the states between its parts.\<close>

lemma tick_stages:
  obtains s1 s2 s3 s4 s5 where
    "check_gps_fix (process_gps e s) = Some s1"
    "check_gsm_network (ticks_ms (world s)) s1 = Some s2"
    "interval_report e (ticks_ms (world s)) s2 = Some s3"
    "check_incoming_sms e s3 = Some s4"
    "console_commands s4 = Some s5"
    "tick e s = Some (s5\<lparr>world := sleep_ms 50 (world s5)\<rparr>)"
proof -
  obtain s1 where 1: "check_gps_fix (process_gps e s) = Some s1"
    using check_gps_fix_total by blast
  obtain s2 where 2: "check_gsm_network (ticks_ms (world s)) s1 = Some s2"
    using check_gsm_network_total by blast
  obtain s3 where 3: "interval_report e (ticks_ms (world s)) s2 = Some s3"
    using interval_report_total by blast
  obtain s4 where 4: "check_incoming_sms e s3 = Some s4"
    using check_incoming_sms_total by blast
  obtain s5 where 5: "console_commands s4 = Some s5"
    using console_commands_total by blast
  have "tick e s = Some (s5\<lparr>world := sleep_ms 50 (world s5)\<rparr>)"
    using 1 2 3 4 5 by (simp add: tick_def)
  with 1 2 3 4 5 show thesis
    by (rule that)
qed

lemma tick_fields:
  "\<exists>s'. tick e s = Some s'
     \<and> (gsm_connected s \<longrightarrow> gsm_connected s')
     \<and> gsm_initialized s' = gsm_initialized s
     \<and> gps_parser s' = gps_parser (process_gps e s)
     \<and> (gps_fix_acquired s' \<longleftrightarrow> gps_fix_acquired s
           \<or> (fix_type (gps_parser s') \<ge> 2 \<and> has_valid_gps_data (gps_parser s')))
     \<and> last_location_sent_ms s'
         = (if (\<not> gsm_connected s \<and> gsm_connected s')
               \<or> (gsm_connected s \<and> gps_fix_acquired s' \<and> has_valid_gps_data (gps_parser s')
                   \<and> ticks_diff (ticks_ms (world s)) (last_location_sent_ms s) \<ge> LOCATION_INTERVAL_MS)
            then ticks_ms (world s) else last_location_sent_ms s)"
proof -
  obtain s1 s2 s3 s4 s5 where st:
    "check_gps_fix (process_gps e s) = Some s1"
    "check_gsm_network (ticks_ms (world s)) s1 = Some s2"
    "interval_report e (ticks_ms (world s)) s2 = Some s3"
    "check_incoming_sms e s3 = Some s4"
    "console_commands s4 = Some s5"
    "tick e s = Some (s5\<lparr>world := sleep_ms 50 (world s5)\<rparr>)"
    by (rule tick_stages)
  note f1 = check_gps_fix_fields [OF st(1)]
  note f2 = check_gsm_network_fields [OF st(2)]
  note f3 = interval_report_fields [OF st(3)]
  note f4 = check_incoming_sms_fields [OF st(4)]
  note f5 = console_commands_fields [OF st(5)]
  let ?s' = "s5\<lparr>world := sleep_ms 50 (world s5)\<rparr>"
  have c: "gsm_connected s \<longrightarrow> gsm_connected ?s'"
    using f1(2) f2(1) f3(1) f4(1) f5(1) by (simp add: process_gps_fields)
  have c2: "gsm_connected ?s' = gsm_connected s2" "gsm_connected s1 = gsm_connected s"
    using f1(2) f3(1) f4(1) f5(1) by (simp_all add: process_gps_fields)
  have i: "gsm_initialized ?s' = gsm_initialized s"
    using f1(3) f2(3) f3(3) f4(3) f5(3) by (simp add: process_gps_fields)
  have g: "gps_parser ?s' = gps_parser (process_gps e s)" "gps_parser s2 = gps_parser (process_gps e s)"
    using f1(4) f2(4) f3(4) f4(4) f5(4) by simp_all
  have a: "gps_fix_acquired ?s' \<longleftrightarrow> gps_fix_acquired s
           \<or> (fix_type (gps_parser ?s') \<ge> 2 \<and> has_valid_gps_data (gps_parser ?s'))"
    "gps_fix_acquired s2 = gps_fix_acquired ?s'"
    using f1(1) f2(2) f3(2) f4(2) f5(2) g by (simp_all add: process_gps_fields)
  have l1: "last_location_sent_ms s1 = last_location_sent_ms s"
    using f1(5) by (simp add: process_gps_fields)
  have l: "last_location_sent_ms ?s'
         = (if (\<not> gsm_connected s \<and> gsm_connected ?s')
               \<or> (gsm_connected s \<and> gps_fix_acquired ?s' \<and> has_valid_gps_data (gps_parser ?s')
                   \<and> ticks_diff (ticks_ms (world s)) (last_location_sent_ms s) \<ge> LOCATION_INTERVAL_MS)
            then ticks_ms (world s) else last_location_sent_ms s)"
  proof -
    have "last_location_sent_ms ?s' = last_location_sent_ms s3"
      using f4(5) f5(5) by simp
    also have "\<dots> = (if gsm_connected s2 \<and> gps_fix_acquired s2 \<and> has_valid_gps_data (gps_parser s2)
             \<and> ticks_diff (ticks_ms (world s)) (last_location_sent_ms s2) \<ge> LOCATION_INTERVAL_MS
          then ticks_ms (world s) else last_location_sent_ms s2)"
      by (rule f3(5))
    also have "\<dots> = (if (\<not> gsm_connected s \<and> gsm_connected ?s')
               \<or> (gsm_connected s \<and> gps_fix_acquired ?s' \<and> has_valid_gps_data (gps_parser ?s')
                   \<and> ticks_diff (ticks_ms (world s)) (last_location_sent_ms s) \<ge> LOCATION_INTERVAL_MS)
            then ticks_ms (world s) else last_location_sent_ms s)"
      using f2(1) unfolding f2(5) c2 a(2) g l1
      by (auto simp: ticks_diff_refl LOCATION_INTERVAL_MS_def)
    finally show ?thesis .
  qed
  from st(6) c i g(1) a(1) l show ?thesis
    by (intro exI [of _ ?s'] conjI)
qed

lemma ticks_total: "\<exists>s'. ticks e n s = Some s'"
proof (induction n arbitrary: s)
  case 0
  show ?case by simp
next
  case (Suc n)
  obtain s1 where "tick e s = Some s1"
    using tick_fields by blast
  with Suc [of s1] show ?case by simp
qed

text \<open>What a call of \<open>send_sms\<close> on a registered board writes: the two commands, then
  either the message and Ctrl+Z or the byte 0x1B.\<close>

lemma send_sms_tx:
  assumes "gsm_connected s"
  shows "\<exists>ok s'. send_sms number message s = Some (ok, s')
           \<and> (gsm_tx (world s') = gsm_tx (world s)
                  @ [''AT+CMGF=1'' @ [CHR 0x0D, CHR 0x0A], cmgs_command number, message, CTRL_Z]
              \<or> gsm_tx (world s') = gsm_tx (world s)
                  @ [''AT+CMGF=1'' @ [CHR 0x0D, CHR 0x0A], cmgs_command number, ESC])"
proof -
  obtain r1 w1 p response w3 w6 sent confirmation w7 where f:
    "send_at_command ''AT+CMGF=1'' 500 3000 (world s) = Some (r1, w1)"
    "gsm_tx w1 = gsm_tx (world s) @ [''AT+CMGF=1'' @ [CHR 0x0D, CHR 0x0A]]"
    "wait_prompt (ticks_ms w1) [] (gsm_write (cmgs_command number) w1) = (p, response, w3)"
    "gsm_tx w3 = gsm_tx w1 @ [cmgs_command number]"
    "w6 = gsm_write CTRL_Z (sleep_ms 100 (gsm_write message w3))"
    "wait_confirm (ticks_ms w6) [] w6 = (sent, confirmation, w7)"
    "gsm_tx w7 = gsm_tx w3 @ [message, CTRL_Z]"
    "send_sms number message s
       = Some (if p then (sent, s\<lparr>world := w7\<rparr>) else (False, s\<lparr>world := gsm_write ESC w3\<rparr>))"
    by (rule send_sms_connected [OF assms, of number message])
  show ?thesis
  proof (cases p)
    case True
    then have "send_sms number message s = Some (sent, s\<lparr>world := w7\<rparr>)"
      using f(8) by simp
    moreover have "gsm_tx (world (s\<lparr>world := w7\<rparr>)) = gsm_tx (world s)
        @ [''AT+CMGF=1'' @ [CHR 0x0D, CHR 0x0A], cmgs_command number, message, CTRL_Z]"
      using f(2) f(4) f(7) by simp
    ultimately show ?thesis by blast
  next
    case False
    then have "send_sms number message s = Some (False, s\<lparr>world := gsm_write ESC w3\<rparr>)"
      using f(8) by simp
    moreover have "gsm_tx (world (s\<lparr>world := gsm_write ESC w3\<rparr>)) = gsm_tx (world s)
        @ [''AT+CMGF=1'' @ [CHR 0x0D, CHR 0x0A], cmgs_command number, ESC]"
      using f(2) f(4) by simp
    ultimately show ?thesis by blast
  qed
qed

text \<open>What the registration check writes.\<close>

lemma check_gsm_network_tx:
  "\<exists>s'. check_gsm_network t s = Some s'
     \<and> (gsm_tx (world s') = gsm_tx (world s)
        \<or> gsm_tx (world s') = gsm_tx (world s) @ [''AT+CREG?'' @ [CHR 0x0D, CHR 0x0A]]
        \<or> gsm_tx (world s') = gsm_tx (world s)
             @ [''AT+CREG?'' @ [CHR 0x0D, CHR 0x0A], ''AT+CMGF=1'' @ [CHR 0x0D, CHR 0x0A],
                cmgs_command ADMIN_NUMBER, ''Vehicle Tracking System is online.'', CTRL_Z]
        \<or> gsm_tx (world s') = gsm_tx (world s)
             @ [''AT+CREG?'' @ [CHR 0x0D, CHR 0x0A], ''AT+CMGF=1'' @ [CHR 0x0D, CHR 0x0A],
                cmgs_command ADMIN_NUMBER, ESC])"
proof (cases "gsm_initialized s \<and> \<not> gsm_connected s
    \<and> ticks_diff t (last_gsm_check_ms s) \<ge> GSM_CHECK_INTERVAL_MS")
  case False
  then have "check_gsm_network t s = Some s"
    by (auto simp: check_gsm_network_def)
  then show ?thesis by simp
next
  case True
  obtain r w1 where c: "send_at_command ''AT+CREG?'' 500 2000 (world s) = Some (r, w1)"
    "gsm_tx w1 = gsm_tx (world s) @ [''AT+CREG?'' @ [CHR 0x0D, CHR 0x0A]]"
    using send_at_command_total [of 2000 "''AT+CREG?''" 500 "world s"] by auto
  show ?thesis
  proof (cases "str_in ''+CREG: 0,1'' r \<or> str_in ''+CREG: 0,5'' r")
    case False
    then have "check_gsm_network t s = Some (s\<lparr>world := w1, last_gsm_check_ms := t\<rparr>)"
      using True c(1) by (simp add: check_gsm_network_def)
    then show ?thesis
      using c(2) by simp
  next
    case reg: True
    let ?s1 = "s\<lparr>world := w1, gsm_connected := True, gsm_led := True\<rparr>"
    obtain ok s2 where m: "send_sms ADMIN_NUMBER ''Vehicle Tracking System is online.'' ?s1 = Some (ok, s2)"
      "gsm_tx (world s2) = gsm_tx (world ?s1)
          @ [''AT+CMGF=1'' @ [CHR 0x0D, CHR 0x0A], cmgs_command ADMIN_NUMBER,
             ''Vehicle Tracking System is online.'', CTRL_Z]
       \<or> gsm_tx (world s2) = gsm_tx (world ?s1)
          @ [''AT+CMGF=1'' @ [CHR 0x0D, CHR 0x0A], cmgs_command ADMIN_NUMBER, ESC]"
      using send_sms_tx [of ?s1 ADMIN_NUMBER "''Vehicle Tracking System is online.''"] by auto
    have "check_gsm_network t s = Some (s2\<lparr>last_location_sent_ms := t, last_gsm_check_ms := t\<rparr>)"
      using True c(1) reg m(1) by (simp add: check_gsm_network_def)
    then show ?thesis
      using m(2) c(2) by auto
  qed
qed

text \<open>The polls of \<open>send_at_command\<close>: while nothing has arrived the loop sleeps 100 ms and
  polls again; at the first poll that finds bytes it reads them, waits, reads once more
  and returns.\<close>

lemma sleep_ms_add: "sleep_ms a (sleep_ms b w) = sleep_ms (b + a) w"
  by (simp add: sleep_ms_def)

lemma at_wait_poll:
  assumes "now w0 \<le> now w" and "now w + 100 * int k - now w0 < max_wait_ms"
    and "max_wait_ms \<le> 2 ^ 29 - 100"
    and "\<forall>j<k. \<not> gsm_any (sleep_ms (100 * int j) w)"
  shows "at_wait (ticks_ms w0) wait_time_ms max_wait_ms w
           = at_wait (ticks_ms w0) wait_time_ms max_wait_ms (sleep_ms (100 * int k) w)"
  using assms
proof (induction k arbitrary: w)
  case 0
  show ?case by (simp add: sleep_ms_def)
next
  case (Suc k)
  have "\<not> gsm_any (sleep_ms (100 * int 0) w)"
    using Suc.prems(4) by blast
  then have n: "\<not> gsm_any w"
    by (simp add: sleep_ms_def)
  have "ticks_diff (ticks_ms w) (ticks_ms w0) = now w - now w0"
    using ticks_diff_exact [of w0 w] Suc.prems(1,2,3) by simp
  then have lt: "ticks_diff (ticks_ms w) (ticks_ms w0) < max_wait_ms"
    using Suc.prems(2) by simp
  have step: "at_wait (ticks_ms w0) wait_time_ms max_wait_ms w
           = at_wait (ticks_ms w0) wait_time_ms max_wait_ms (sleep_ms 100 w)"
    using n lt by (subst at_wait.simps) simp
  have e: "sleep_ms (100 * int j) (sleep_ms 100 w) = sleep_ms (100 * int (Suc j)) w" for j
    by (simp add: sleep_ms_add)
  have q: "\<forall>j<k. \<not> gsm_any (sleep_ms (100 * int j) (sleep_ms 100 w))"
    using Suc.prems(4) unfolding e by auto
  have "at_wait (ticks_ms w0) wait_time_ms max_wait_ms (sleep_ms 100 w)
           = at_wait (ticks_ms w0) wait_time_ms max_wait_ms (sleep_ms (100 * int k) (sleep_ms 100 w))"
    using Suc.prems(1,2,3) q by (intro Suc.IH) (simp_all add: sleep_ms_def)
  with step show ?case
    unfolding e by simp
qed

lemma at_wait_answered:
  assumes "ticks_diff (ticks_ms w) start_time < max_wait_ms" and "gsm_any w"
  shows "at_wait start_time wait_time_ms max_wait_ms w
           = Some (decode_ignore (fst (gsm_read w))
                     @ (if gsm_any (sleep_ms wait_time_ms (snd (gsm_read w)))
                        then decode_ignore (fst (gsm_read (sleep_ms wait_time_ms (snd (gsm_read w)))))
                        else []),
                   if gsm_any (sleep_ms wait_time_ms (snd (gsm_read w)))
                   then snd (gsm_read (sleep_ms wait_time_ms (snd (gsm_read w))))
                   else sleep_ms wait_time_ms (snd (gsm_read w)))"
  using assms
  by (subst at_wait.simps) (simp add: Let_def case_prod_beta gsm_any_read)

lemma send_at_command_answer:
  assumes "w2 = gsm_write (command @ [CHR 0x0D, CHR 0x0A]) (if gsm_any w then snd (gsm_read w) else w)"
    and "wk = sleep_ms (100 * int k) w2" and "wk' = sleep_ms wait_time_ms (snd (gsm_read wk))"
    and "100 * int k < max_wait_ms" and "max_wait_ms \<le> 2 ^ 29 - 100"
    and "\<forall>j<k. \<not> gsm_any (sleep_ms (100 * int j) w2)" and "gsm_any wk"
  shows "send_at_command command wait_time_ms max_wait_ms w
           = Some (decode_ignore (fst (gsm_read wk))
                     @ (if gsm_any wk' then decode_ignore (fst (gsm_read wk')) else []),
                   if gsm_any wk' then snd (gsm_read wk') else wk')"
proof -
  have "send_at_command command wait_time_ms max_wait_ms w
          = at_wait (ticks_ms w2) wait_time_ms max_wait_ms w2"
    by (simp add: send_at_command_def Let_def assms(1))
  also have "\<dots> = at_wait (ticks_ms w2) wait_time_ms max_wait_ms wk"
    unfolding assms(2) using assms(4,5,6) by (intro at_wait_poll) simp_all
  also have "\<dots> = Some (decode_ignore (fst (gsm_read wk))
                     @ (if gsm_any wk' then decode_ignore (fst (gsm_read wk')) else []),
                   if gsm_any wk' then snd (gsm_read wk') else wk')"
  proof -
    have "ticks_diff (ticks_ms wk) (ticks_ms w2) = now wk - now w2"
      using assms(4,5) by (intro ticks_diff_exact) (simp_all add: assms(2) sleep_ms_def)
    then have "ticks_diff (ticks_ms wk) (ticks_ms w2) < max_wait_ms"
      using assms(4) by (simp add: assms(2) sleep_ms_def)
    then show ?thesis
      unfolding assms(3) using assms(7) by (rule at_wait_answered)
  qed
  finally show ?thesis .
qed

text \<open>The registration check when it is due, by the answer of the modem.\<close>

lemma check_gsm_network_due:
  assumes "gsm_initialized s" and "\<not> gsm_connected s"
    and "GSM_CHECK_INTERVAL_MS \<le> ticks_diff t (last_gsm_check_ms s)"
    and "send_at_command ''AT+CREG?'' 500 2000 (world s) = Some (response, w1)"
  shows "sublist ''+CREG: 0,1'' response \<or> sublist ''+CREG: 0,5'' response \<Longrightarrow>
           \<exists>ok s2. send_sms ADMIN_NUMBER ''Vehicle Tracking System is online.''
                      (s\<lparr>world := w1, gsm_connected := True, gsm_led := True\<rparr>) = Some (ok, s2)
             \<and> check_gsm_network t s = Some (s2\<lparr>last_location_sent_ms := t, last_gsm_check_ms := t\<rparr>)
             \<and> gsm_connected s2 \<and> last_location_sent_ms s2 = last_location_sent_ms s
             \<and> (gsm_tx (world s2) = gsm_tx w1
                    @ [''AT+CMGF=1'' @ [CHR 0x0D, CHR 0x0A], cmgs_command ADMIN_NUMBER,
                       ''Vehicle Tracking System is online.'', CTRL_Z]
                \<or> gsm_tx (world s2) = gsm_tx w1
                    @ [''AT+CMGF=1'' @ [CHR 0x0D, CHR 0x0A], cmgs_command ADMIN_NUMBER, ESC])"
    and "\<not> (sublist ''+CREG: 0,1'' response \<or> sublist ''+CREG: 0,5'' response) \<Longrightarrow>
           check_gsm_network t s = Some (s\<lparr>world := w1, last_gsm_check_ms := t\<rparr>)"
    and "gsm_tx w1 = gsm_tx (world s) @ [''AT+CREG?'' @ [CHR 0x0D, CHR 0x0A]]"
proof -
  let ?s1 = "s\<lparr>world := w1, gsm_connected := True, gsm_led := True\<rparr>"
  show "gsm_tx w1 = gsm_tx (world s) @ [''AT+CREG?'' @ [CHR 0x0D, CHR 0x0A]]"
    using send_at_command_total [of 2000 "''AT+CREG?''" 500 "world s"] assms(4) by auto
  show "check_gsm_network t s = Some (s\<lparr>world := w1, last_gsm_check_ms := t\<rparr>)"
    if "\<not> (sublist ''+CREG: 0,1'' response \<or> sublist ''+CREG: 0,5'' response)"
    using that assms by (simp add: check_gsm_network_def str_in_sublist)
  show "\<exists>ok s2. send_sms ADMIN_NUMBER ''Vehicle Tracking System is online.'' ?s1 = Some (ok, s2)
             \<and> check_gsm_network t s = Some (s2\<lparr>last_location_sent_ms := t, last_gsm_check_ms := t\<rparr>)
             \<and> gsm_connected s2 \<and> last_location_sent_ms s2 = last_location_sent_ms s
             \<and> (gsm_tx (world s2) = gsm_tx w1
                    @ [''AT+CMGF=1'' @ [CHR 0x0D, CHR 0x0A], cmgs_command ADMIN_NUMBER,
                       ''Vehicle Tracking System is online.'', CTRL_Z]
                \<or> gsm_tx (world s2) = gsm_tx w1
                    @ [''AT+CMGF=1'' @ [CHR 0x0D, CHR 0x0A], cmgs_command ADMIN_NUMBER, ESC])"
    if reg: "sublist ''+CREG: 0,1'' response \<or> sublist ''+CREG: 0,5'' response"
  proof -
    obtain ok s2 where m: "send_sms ADMIN_NUMBER ''Vehicle Tracking System is online.'' ?s1 = Some (ok, s2)"
      "gsm_tx (world s2) = gsm_tx (world ?s1)
          @ [''AT+CMGF=1'' @ [CHR 0x0D, CHR 0x0A], cmgs_command ADMIN_NUMBER,
             ''Vehicle Tracking System is online.'', CTRL_Z]
       \<or> gsm_tx (world s2) = gsm_tx (world ?s1)
          @ [''AT+CMGF=1'' @ [CHR 0x0D, CHR 0x0A], cmgs_command ADMIN_NUMBER, ESC]"
      using send_sms_tx [of ?s1 ADMIN_NUMBER "''Vehicle Tracking System is online.''"] by auto
    have c: "check_gsm_network t s = Some (s2\<lparr>last_location_sent_ms := t, last_gsm_check_ms := t\<rparr>)"
      using assms reg m(1) by (simp add: check_gsm_network_def str_in_sublist)
    have f: "gsm_connected s2" "last_location_sent_ms s2 = last_location_sent_ms s"
      using send_sms_fields(1,5) [OF m(1)] by simp_all
    from m c f show ?thesis
      by (intro exI [of _ ok] exI [of _ s2]) simp
  qed
qed

section \<open>Example states\<close>

text \<open>A board 20 s after power-up, not registered with the network, on which an SMS asking
  for the location has just come in and the operator has typed \<open>t\<close> and the return key.\<close>

definition quiet_world :: world where
  "quiet_world =
     \<lparr>now = 20000,
      gsm_rx = [(19990, ''+CMT: \"+911234567890\",,\"24/01/01,10:00:00+22\"'' @ [CHR 0x0D, CHR 0x0A]
                          @ ''Send LOCATION'' @ [CHR 0x0D, CHR 0x0A])],
      gsm_tx = [], gps_rx = [], stdin = [(19000, CHR 0x0A)], has_select = True\<rparr>"

definition no_fix :: gps where
  "no_fix = \<lparr>fix_type = 1, latitude = Some 0, longitude = Some 0, latitude_string = [],
     longitude_string = [], date = (0, 0, 0), timestamp = (Some 0, 0, 0), sentence_buf = []\<rparr>"

definition unregistered_state :: state where
  "unregistered_state = \<lparr>gsm_connected = False, gps_fix_acquired = False, gsm_initialized = True,
     gps_parser = no_fix, last_location_sent_ms = 0, last_gsm_check_ms = 15000,
     input_buffer = ''t'', gsm_led = False, gps_led = False, world = quiet_world\<rparr>"

text \<open>A decoder that only collects the characters it is fed.\<close>

definition plain_ext :: ext where
  "plain_ext = \<lparr>gps_update = (\<lambda>c g. g\<lparr>sentence_buf := sentence_buf g @ [c]\<rparr>),
                float_str = (\<lambda>x. ''?'')\<rparr>"

text \<open>A board whose modem stays silent for the two seconds after time 1000.\<close>

definition silent_world :: world where
  "silent_world = \<lparr>now = 1000, gsm_rx = [(3000, ''OK'')], gsm_tx = [], gps_rx = [], stdin = [],
     has_select = True\<rparr>"

text \<open>A registered board at time 70000 whose modem acknowledges the next command and then
  stays silent: the prompt of the SMS dialogue never comes.\<close>

definition no_prompt_world :: world where
  "no_prompt_world = \<lparr>now = 70000, gsm_rx = [(70150, ''OK'' @ [CHR 0x0D, CHR 0x0A])], gsm_tx = [],
     gps_rx = [], stdin = [], has_select = True\<rparr>"




text \<open>A decoder state with a 3D fix, and a board at time 70000 that holds it while the
  network is not registered yet: the modem is about to answer the registration query with
  the home status and then goes through the whole SMS dialogue.\<close>

definition fixed_gps :: gps where
  "fixed_gps = \<lparr>fix_type = 3, latitude = Some 28.61, longitude = Some 77.2,
     latitude_string = ''28.61 N'', longitude_string = ''77.2 E'', date = (1, 2, 24),
     timestamp = (Some 10, 30, 0), sentence_buf = []\<rparr>"

definition registering_world :: world where
  "registering_world = \<lparr>now = 70000,
     gsm_rx = [(70050, ''+CREG: 0,1'' @ [CHR 0x0D, CHR 0x0A] @ ''OK'' @ [CHR 0x0D, CHR 0x0A]),
               (70650, ''OK'' @ [CHR 0x0D, CHR 0x0A]), (71250, ''> ''),
               (71400, ''+CMGS: 12'' @ [CHR 0x0D, CHR 0x0A] @ ''OK'' @ [CHR 0x0D, CHR 0x0A])],
     gsm_tx = [], gps_rx = [], stdin = [], has_select = True\<rparr>"

definition fix_first_state :: state where
  "fix_first_state = \<lparr>gsm_connected = False, gps_fix_acquired = False, gsm_initialized = True,
     gps_parser = fixed_gps, last_location_sent_ms = 0, last_gsm_check_ms = 60000,
     input_buffer = [], gsm_led = False, gps_led = False, world = registering_world\<rparr>"

text \<open>A decoder that drops its fix at every character it is fed, and a registered board
  with the fix latched whose GPS line has a character waiting.\<close>

definition losing_ext :: ext where
  "losing_ext = \<lparr>gps_update = (\<lambda>c g. g\<lparr>fix_type := 1, latitude := Some 0, longitude := Some 0\<rparr>),
                 float_str = (\<lambda>x. ''?'')\<rparr>"

definition locked_state :: state where
  "locked_state = \<lparr>gsm_connected = True, gps_fix_acquired = True, gsm_initialized = True,
     gps_parser = fixed_gps, last_location_sent_ms = 60000, last_gsm_check_ms = 60000,
     input_buffer = [], gsm_led = True, gps_led = True,
     world = \<lparr>now = 70000, gsm_rx = [], gsm_tx = [], gps_rx = [(69990, ''$'')], stdin = [],
              has_select = True\<rparr>\<rparr>"

text \<open>A registered board with a fix whose report is due and whose modem never prompts.\<close>

definition due_state :: state where
  "due_state = \<lparr>gsm_connected = True, gps_fix_acquired = True, gsm_initialized = True,
     gps_parser = fixed_gps, last_location_sent_ms = 0, last_gsm_check_ms = 60000,
     input_buffer = [], gsm_led = True, gps_led = True, world = no_prompt_world\<rparr>"

text \<open>A registered board on which an SMS asking for the location has just come in; the
  modem then goes through the whole SMS dialogue.\<close>

definition request_world :: world where
  "request_world = \<lparr>now = 70000,
     gsm_rx = [(69990, ''+CMT: \"+911234567890\",,\"24/01/01,10:00:00+22\"'' @ [CHR 0x0D, CHR 0x0A]
                          @ ''Send LOCATION'' @ [CHR 0x0D, CHR 0x0A]),
               (70050, ''OK'' @ [CHR 0x0D, CHR 0x0A]), (70650, ''> ''),
               (70800, ''+CMGS: 13'' @ [CHR 0x0D, CHR 0x0A] @ ''OK'' @ [CHR 0x0D, CHR 0x0A])],
     gsm_tx = [], gps_rx = [], stdin = [], has_select = True\<rparr>"

definition request_state :: state where
  "request_state = \<lparr>gsm_connected = True, gps_fix_acquired = True, gsm_initialized = True,
     gps_parser = fixed_gps, last_location_sent_ms = 60000, last_gsm_check_ms = 60000,
     input_buffer = [], gsm_led = True, gps_led = True, world = request_world\<rparr>"

text \<open>A board whose modem answers \<^verbatim>\<open>OK\<close> 250 ms after time 1000.\<close>

definition answering_world :: world where
  "answering_world = \<lparr>now = 1000,
     gsm_rx = [(1250, [CHR 0x0D, CHR 0x0A] @ ''OK'' @ [CHR 0x0D, CHR 0x0A])], gsm_tx = [],
     gps_rx = [], stdin = [], has_select = True\<rparr>"

text \<open>An unregistered board at time 70000 whose modem answers the registration query with
  the status 10, and then goes through the whole SMS dialogue.\<close>

definition status10_world :: world where
  "status10_world = \<lparr>now = 70000,
     gsm_rx = [(70050, ''+CREG: 0,10'' @ [CHR 0x0D, CHR 0x0A] @ ''OK'' @ [CHR 0x0D, CHR 0x0A]),
               (70650, ''OK'' @ [CHR 0x0D, CHR 0x0A]), (71250, ''> ''),
               (71400, ''+CMGS: 12'' @ [CHR 0x0D, CHR 0x0A] @ ''OK'' @ [CHR 0x0D, CHR 0x0A])],
     gsm_tx = [], gps_rx = [], stdin = [], has_select = True\<rparr>"

definition status10_state :: state where
  "status10_state = \<lparr>gsm_connected = False, gps_fix_acquired = False, gsm_initialized = True,
     gps_parser = no_fix, last_location_sent_ms = 0, last_gsm_check_ms = 60000,
     input_buffer = [], gsm_led = False, gps_led = False, world = status10_world\<rparr>"

section \<open>The claims\<close>

text \<open>
  C10. A call of \<open>send_sms\<close> made while \<open>gsm_connected\<close> is false returns \<open>False\<close> at once
  and leaves the whole state, the modem line included, as it was: nothing is written. So
  the answer to an incoming location request and the operator's test command write nothing
  to the modem before registration.
\<close>

theorem send_sms_not_connected:
  assumes "\<not> gsm_connected s"
  shows "send_sms number message s = Some (False, s)
       \<and> (\<exists>s'. check_incoming_sms e s = Some s' \<and> gsm_tx (world s') = gsm_tx (world s))
       \<and> (\<exists>s'. console_commands s = Some s' \<and> gsm_tx (world s') = gsm_tx (world s))"
proof (intro conjI)
  show "send_sms number message s = Some (False, s)"
    using assms by (simp add: send_sms_def)
  show "\<exists>s'. check_incoming_sms e s = Some s' \<and> gsm_tx (world s') = gsm_tx (world s)"
    using assms by (simp add: check_incoming_sms_def send_sms_def Let_def)
  show "\<exists>s'. console_commands s = Some s' \<and> gsm_tx (world s') = gsm_tx (world s)"
    using assms by (simp add: console_commands_def send_sms_def Let_def)
qed

text \<open>C10 on the unregistered board: the location request that has come in and the
  operator's test command both leave the modem line untouched.\<close>

theorem send_sms_not_connected_witness:
  "\<not> gsm_connected unregistered_state
   \<and> send_sms ADMIN_NUMBER ''Test message from Vehicle Tracker'' unregistered_state
       = Some (False, unregistered_state)
   \<and> gsm_tx (world (the (check_incoming_sms plain_ext unregistered_state))) = []
   \<and> gsm_tx (world (the (console_commands unregistered_state))) = []"
  using send_sms_not_connected
          [of unregistered_state ADMIN_NUMBER "''Test message from Vehicle Tracker''" plain_ext]
  by (auto simp: unregistered_state_def quiet_world_def)

text \<open>
  C2, as the program has it. When the registration check is due and the modem has answered
  \<open>AT+CREG?\<close> with \<open>response\<close>, the program takes the registered branch exactly when the
  answer contains \<open>+CREG: 0,1\<close> or \<open>+CREG: 0,5\<close> somewhere: a test for a substring, so a status
  whose digits begin with 1 or 5 counts too. In that branch \<open>gsm_connected\<close> is set, the SMS
  \<^verbatim>\<open>Vehicle Tracking System is online.\<close> is attempted and both time stamps are set. With any
  other answer, whether it contains \<open>+CREG:\<close> or is empty, the board stays unregistered and
  only the time of the last check changes, so the query is repeated later.
\<close>

theorem check_gsm_network_registration:
  assumes "gsm_initialized s" and "\<not> gsm_connected s"
    and "GSM_CHECK_INTERVAL_MS \<le> ticks_diff t (last_gsm_check_ms s)"
    and "send_at_command ''AT+CREG?'' 500 2000 (world s) = Some (response, w1)"
  shows "(\<exists>s'. check_gsm_network t s = Some s'
            \<and> (gsm_connected s'
                 \<longleftrightarrow> sublist ''+CREG: 0,1'' response \<or> sublist ''+CREG: 0,5'' response)
            \<and> last_gsm_check_ms s' = t)
       \<and> (sublist ''+CREG: 0,1'' response \<or> sublist ''+CREG: 0,5'' response \<longrightarrow>
            (\<exists>ok s2. send_sms ADMIN_NUMBER ''Vehicle Tracking System is online.''
                        (s\<lparr>world := w1, gsm_connected := True, gsm_led := True\<rparr>) = Some (ok, s2)
               \<and> check_gsm_network t s = Some (s2\<lparr>last_location_sent_ms := t, last_gsm_check_ms := t\<rparr>)
               \<and> (gsm_tx (world s2) = gsm_tx (world s)
                      @ [''AT+CREG?'' @ [CHR 0x0D, CHR 0x0A], ''AT+CMGF=1'' @ [CHR 0x0D, CHR 0x0A],
                         cmgs_command ADMIN_NUMBER, ''Vehicle Tracking System is online.'', CTRL_Z]
                  \<or> gsm_tx (world s2) = gsm_tx (world s)
                      @ [''AT+CREG?'' @ [CHR 0x0D, CHR 0x0A], ''AT+CMGF=1'' @ [CHR 0x0D, CHR 0x0A],
                         cmgs_command ADMIN_NUMBER, ESC])))
       \<and> (\<not> (sublist ''+CREG: 0,1'' response \<or> sublist ''+CREG: 0,5'' response) \<longrightarrow>
            check_gsm_network t s = Some (s\<lparr>world := w1, last_gsm_check_ms := t\<rparr>)
            \<and> gsm_tx w1 = gsm_tx (world s) @ [''AT+CREG?'' @ [CHR 0x0D, CHR 0x0A]])"
proof -
  note d = check_gsm_network_due [OF assms]
  let ?reg = "sublist ''+CREG: 0,1'' response \<or> sublist ''+CREG: 0,5'' response"
  have a: "\<exists>s'. check_gsm_network t s = Some s' \<and> (gsm_connected s' \<longleftrightarrow> ?reg)
              \<and> last_gsm_check_ms s' = t"
  proof (cases ?reg)
    case True
    then obtain ok s2 where
      "check_gsm_network t s = Some (s2\<lparr>last_location_sent_ms := t, last_gsm_check_ms := t\<rparr>)"
      "gsm_connected s2"
      using d(1) by blast
    with True show ?thesis by simp
  next
    case False
    then have "check_gsm_network t s = Some (s\<lparr>world := w1, last_gsm_check_ms := t\<rparr>)"
      by (rule d(2))
    with False assms(2) show ?thesis by simp
  qed
  have b: "\<exists>ok s2. send_sms ADMIN_NUMBER ''Vehicle Tracking System is online.''
                        (s\<lparr>world := w1, gsm_connected := True, gsm_led := True\<rparr>) = Some (ok, s2)
               \<and> check_gsm_network t s = Some (s2\<lparr>last_location_sent_ms := t, last_gsm_check_ms := t\<rparr>)
               \<and> (gsm_tx (world s2) = gsm_tx (world s)
                      @ [''AT+CREG?'' @ [CHR 0x0D, CHR 0x0A], ''AT+CMGF=1'' @ [CHR 0x0D, CHR 0x0A],
                         cmgs_command ADMIN_NUMBER, ''Vehicle Tracking System is online.'', CTRL_Z]
                  \<or> gsm_tx (world s2) = gsm_tx (world s)
                      @ [''AT+CREG?'' @ [CHR 0x0D, CHR 0x0A], ''AT+CMGF=1'' @ [CHR 0x0D, CHR 0x0A],
                         cmgs_command ADMIN_NUMBER, ESC])"
    if reg: ?reg
  proof -
    obtain ok s2 where m:
      "send_sms ADMIN_NUMBER ''Vehicle Tracking System is online.''
         (s\<lparr>world := w1, gsm_connected := True, gsm_led := True\<rparr>) = Some (ok, s2)"
      "check_gsm_network t s = Some (s2\<lparr>last_location_sent_ms := t, last_gsm_check_ms := t\<rparr>)"
      "gsm_tx (world s2) = gsm_tx w1
          @ [''AT+CMGF=1'' @ [CHR 0x0D, CHR 0x0A], cmgs_command ADMIN_NUMBER,
             ''Vehicle Tracking System is online.'', CTRL_Z]
       \<or> gsm_tx (world s2) = gsm_tx w1
          @ [''AT+CMGF=1'' @ [CHR 0x0D, CHR 0x0A], cmgs_command ADMIN_NUMBER, ESC]"
      using d(1) [OF reg] by blast
    from m show ?thesis
      unfolding d(3) by (intro exI [of _ ok] exI [of _ s2]) simp
  qed
  have c: "check_gsm_network t s = Some (s\<lparr>world := w1, last_gsm_check_ms := t\<rparr>)
            \<and> gsm_tx w1 = gsm_tx (world s) @ [''AT+CREG?'' @ [CHR 0x0D, CHR 0x0A]]"
    if "\<not> ?reg"
    using d(2) [OF that] d(3) by simp
  from a b c show ?thesis
    by blast
qed

text \<open>C2 on the board whose modem answers with the home status: the check at 70000 finds
  the board registered.\<close>

theorem check_gsm_network_registration_witness:
  "gsm_initialized fix_first_state \<and> \<not> gsm_connected fix_first_state
   \<and> GSM_CHECK_INTERVAL_MS \<le> ticks_diff 70000 (last_gsm_check_ms fix_first_state)
   \<and> map_option fst (send_at_command ''AT+CREG?'' 500 2000 (world fix_first_state))
       = Some (''+CREG: 0,1'' @ [CHR 0x0D, CHR 0x0A] @ ''OK'' @ [CHR 0x0D, CHR 0x0A])
   \<and> (\<exists>s'. check_gsm_network 70000 fix_first_state = Some s' \<and> gsm_connected s'
          \<and> last_gsm_check_ms s' = 70000)"
proof -
  have p: "gsm_initialized fix_first_state" "\<not> gsm_connected fix_first_state"
    "GSM_CHECK_INTERVAL_MS \<le> ticks_diff 70000 (last_gsm_check_ms fix_first_state)"
    by (simp_all add: fix_first_state_def GSM_CHECK_INTERVAL_MS_def ticks_diff_def TICKS_PERIOD_def)
  obtain r w1 where e: "send_at_command ''AT+CREG?'' 500 2000 (world fix_first_state) = Some (r, w1)"
    using send_at_command_total [of 2000 "''AT+CREG?''" 500 "world fix_first_state"] by auto
  have f: "map_option fst (send_at_command ''AT+CREG?'' 500 2000 (world fix_first_state))
       = Some (''+CREG: 0,1'' @ [CHR 0x0D, CHR 0x0A] @ ''OK'' @ [CHR 0x0D, CHR 0x0A])"
    by code_simp
  then have r: "r = ''+CREG: 0,1'' @ [CHR 0x0D, CHR 0x0A] @ ''OK'' @ [CHR 0x0D, CHR 0x0A]"
    unfolding e by simp
  have "str_in ''+CREG: 0,1'' (''+CREG: 0,1'' @ [CHR 0x0D, CHR 0x0A] @ ''OK'' @ [CHR 0x0D, CHR 0x0A])"
    by code_simp
  then have "sublist ''+CREG: 0,1'' r"
    unfolding r str_in_sublist .
  then have "\<exists>s'. check_gsm_network 70000 fix_first_state = Some s' \<and> gsm_connected s'
          \<and> last_gsm_check_ms s' = 70000"
    using check_gsm_network_registration [OF p e] by blast
  with p f show ?thesis
    by (intro conjI)
qed

text \<open>Against C2 as stated: the modem answers with the status 10, which is neither of the
  two registered codes, and the check takes the registered branch: \<open>gsm_connected\<close> is set
  and the SMS \<^verbatim>\<open>Vehicle Tracking System is online.\<close> is sent.\<close>

theorem check_gsm_network_counterexample:
  "map_option fst (send_at_command ''AT+CREG?'' 500 2000 (world status10_state))
     = Some (''+CREG: 0,10'' @ [CHR 0x0D, CHR 0x0A] @ ''OK'' @ [CHR 0x0D, CHR 0x0A])
   \<and> map_option (\<lambda>s'. (gsm_connected s', gsm_tx (world s'))) (check_gsm_network 70000 status10_state)
     = Some (True,
             [''AT+CREG?'' @ [CHR 0x0D, CHR 0x0A], ''AT+CMGF=1'' @ [CHR 0x0D, CHR 0x0A],
              cmgs_command ADMIN_NUMBER, ''Vehicle Tracking System is online.'', CTRL_Z])"
proof -
  have a: "map_option fst (send_at_command ''AT+CREG?'' 500 2000 (world status10_state))
     = Some (''+CREG: 0,10'' @ [CHR 0x0D, CHR 0x0A] @ ''OK'' @ [CHR 0x0D, CHR 0x0A])"
    by code_simp
  have b: "map_option (\<lambda>s'. (gsm_connected s', gsm_tx (world s'))) (check_gsm_network 70000 status10_state)
     = Some (True,
             [''AT+CREG?'' @ [CHR 0x0D, CHR 0x0A], ''AT+CMGF=1'' @ [CHR 0x0D, CHR 0x0A],
              cmgs_command ADMIN_NUMBER, ''Vehicle Tracking System is online.'', CTRL_Z])"
    by code_simp
  from a b show ?thesis
    by (intro conjI)
qed

text \<open>
  C8. \<open>check_gsm_module\<close> returns true if and only if the response to the command \<open>AT\<close>
  contains \<open>OK\<close>. The response is what the modem line delivers: when the poll number \<open>k\<close>
  (one every 100 ms, fewer than 20) is the first to find bytes, the response is these
  bytes followed by the bytes that come in during the next 1000 ms, and the probe is true
  exactly when this text contains \<open>OK\<close>. When no byte comes in on the modem line during the
  2000 ms bound (bytes that were there before the command are discarded),
  \<open>send_at_command\<close> returns the empty response, a result and not an error, having written
  the command, and \<open>check_gsm_module\<close> returns false.
\<close>

theorem check_gsm_module_ok:
  "(\<exists>response w'. send_at_command ''AT'' 1000 2000 w = Some (response, w')
       \<and> check_gsm_module w = Some (sublist ''OK'' response, w'))
   \<and> (\<forall>k w2 wk wk'.
         w2 = gsm_write (''AT'' @ [CHR 0x0D, CHR 0x0A]) (if gsm_any w then snd (gsm_read w) else w)
         \<and> wk = sleep_ms (100 * int k) w2 \<and> wk' = sleep_ms 1000 (snd (gsm_read wk))
         \<and> k < 20 \<and> (\<forall>j<k. \<not> gsm_any (sleep_ms (100 * int j) w2)) \<and> gsm_any wk
         \<longrightarrow> send_at_command ''AT'' 1000 2000 w
               = Some (decode_ignore (fst (gsm_read wk))
                         @ (if gsm_any wk' then decode_ignore (fst (gsm_read wk')) else []),
                       if gsm_any wk' then snd (gsm_read wk') else wk')
             \<and> check_gsm_module w
               = Some (sublist ''OK'' (decode_ignore (fst (gsm_read wk))
                         @ (if gsm_any wk' then decode_ignore (fst (gsm_read wk')) else [])),
                       if gsm_any wk' then snd (gsm_read wk') else wk'))
   \<and> ((\<forall>e\<in>set (gsm_rx w). snd e = [] \<or> fst e \<le> now w \<or> now w + 2000 \<le> fst e) \<longrightarrow>
        (\<exists>w'. send_at_command ''AT'' 1000 2000 w = Some ([], w')
           \<and> check_gsm_module w = Some (False, w')
           \<and> gsm_tx w' = gsm_tx w @ [''AT'' @ [CHR 0x0D, CHR 0x0A]]))"
proof -
  have total: "\<exists>response w'. send_at_command ''AT'' 1000 2000 w = Some (response, w')
       \<and> check_gsm_module w = Some (sublist ''OK'' response, w')"
  proof -
    obtain r w' where "send_at_command ''AT'' 1000 2000 w = Some (r, w')"
      using send_at_command_total [of 2000 "''AT''" 1000 w] by auto
    then show ?thesis
      by (simp add: check_gsm_module_def str_in_sublist)
  qed
  have answer: "send_at_command ''AT'' 1000 2000 w
               = Some (decode_ignore (fst (gsm_read wk))
                         @ (if gsm_any wk' then decode_ignore (fst (gsm_read wk')) else []),
                       if gsm_any wk' then snd (gsm_read wk') else wk')
             \<and> check_gsm_module w
               = Some (sublist ''OK'' (decode_ignore (fst (gsm_read wk))
                         @ (if gsm_any wk' then decode_ignore (fst (gsm_read wk')) else [])),
                       if gsm_any wk' then snd (gsm_read wk') else wk')"
    if a: "w2 = gsm_write (''AT'' @ [CHR 0x0D, CHR 0x0A]) (if gsm_any w then snd (gsm_read w) else w)
         \<and> wk = sleep_ms (100 * int k) w2 \<and> wk' = sleep_ms 1000 (snd (gsm_read wk))
         \<and> k < 20 \<and> (\<forall>j<k. \<not> gsm_any (sleep_ms (100 * int j) w2)) \<and> gsm_any wk"
    for k w2 wk wk'
  proof -
    from a have a1: "w2 = gsm_write (''AT'' @ [CHR 0x0D, CHR 0x0A]) (if gsm_any w then snd (gsm_read w) else w)"
      and a2: "wk = sleep_ms (100 * int k) w2" and a3: "wk' = sleep_ms 1000 (snd (gsm_read wk))"
      and a4: "k < 20" and a5: "\<forall>j<k. \<not> gsm_any (sleep_ms (100 * int j) w2)" and a6: "gsm_any wk"
      by blast+
    have "100 * int k < 2000"
      using a4 by simp
    then have "send_at_command ''AT'' 1000 2000 w
               = Some (decode_ignore (fst (gsm_read wk))
                         @ (if gsm_any wk' then decode_ignore (fst (gsm_read wk')) else []),
                       if gsm_any wk' then snd (gsm_read wk') else wk')"
      by (intro send_at_command_answer [OF a1 a2 a3 _ _ a5 a6]) simp_all
    then show ?thesis
      by (simp add: check_gsm_module_def str_in_sublist)
  qed
  have silent: "\<exists>w'. send_at_command ''AT'' 1000 2000 w = Some ([], w')
           \<and> check_gsm_module w = Some (False, w')
           \<and> gsm_tx w' = gsm_tx w @ [''AT'' @ [CHR 0x0D, CHR 0x0A]]"
    if quiet: "\<forall>e\<in>set (gsm_rx w). snd e = [] \<or> fst e \<le> now w \<or> now w + 2000 \<le> fst e"
  proof -
    obtain w' where "send_at_command ''AT'' 1000 2000 w = Some ([], w')"
      "gsm_tx w' = gsm_tx w @ [''AT'' @ [CHR 0x0D, CHR 0x0A]]"
      using quiet send_at_command_silent [of w 2000 "''AT''" 1000] by auto
    then show ?thesis
      by (simp add: check_gsm_module_def)
  qed
  from total answer silent show ?thesis
    by blast
qed

text \<open>C8 on two boards. The modem of the first answers \<^verbatim>\<open>OK\<close> at 1250: the polls at 1000,
  1100 and 1200 find nothing, the poll at 1300 reads the answer, and the probe returns true
  at 2300. The modem of the second is silent for the two seconds, and the probe returns
  false.\<close>

theorem check_gsm_module_ok_witness:
  "check_gsm_module answering_world
     = Some (True, answering_world\<lparr>now := 2300, gsm_rx := [],
                     gsm_tx := [''AT'' @ [CHR 0x0D, CHR 0x0A]]\<rparr>)
   \<and> now silent_world = 1000 \<and> gsm_rx silent_world = [(3000, ''OK'')]
   \<and> (\<exists>w'. send_at_command ''AT'' 1000 2000 silent_world = Some ([], w')
           \<and> check_gsm_module silent_world = Some (False, w'))"
proof -
  let ?w2 = "gsm_write (''AT'' @ [CHR 0x0D, CHR 0x0A])
               (if gsm_any answering_world then snd (gsm_read answering_world) else answering_world)"
  let ?wk = "sleep_ms (100 * int 3) ?w2"
  let ?wk' = "sleep_ms 1000 (snd (gsm_read ?wk))"
  have q: "\<forall>j<3. \<not> gsm_any (sleep_ms (100 * int j) ?w2)"
    by (auto simp: gsm_any_def sleep_ms_def gsm_write_def arrived_def answering_world_def)
  have g: "gsm_any ?wk"
    by (simp add: gsm_any_def sleep_ms_def gsm_write_def arrived_def answering_world_def)
  note t = check_gsm_module_ok [of answering_world, THEN conjunct2, THEN conjunct1, rule_format,
      of ?w2 ?wk 3 ?wk', THEN conjunct2]
  have "check_gsm_module answering_world
               = Some (sublist ''OK'' (decode_ignore (fst (gsm_read ?wk))
                         @ (if gsm_any ?wk' then decode_ignore (fst (gsm_read ?wk')) else [])),
                       if gsm_any ?wk' then snd (gsm_read ?wk') else ?wk')"
    using q g by (intro t conjI refl) simp_all
  moreover have "(sublist ''OK'' (decode_ignore (fst (gsm_read ?wk))
                         @ (if gsm_any ?wk' then decode_ignore (fst (gsm_read ?wk')) else [])),
                       if gsm_any ?wk' then snd (gsm_read ?wk') else ?wk')
      = (True, answering_world\<lparr>now := 2300, gsm_rx := [],
                     gsm_tx := [''AT'' @ [CHR 0x0D, CHR 0x0A]]\<rparr>)"
    unfolding str_in_sublist [symmetric] by code_simp
  ultimately have a: "check_gsm_module answering_world
     = Some (True, answering_world\<lparr>now := 2300, gsm_rx := [],
                     gsm_tx := [''AT'' @ [CHR 0x0D, CHR 0x0A]]\<rparr>)"
    by simp
  have s: "now silent_world = 1000" "gsm_rx silent_world = [(3000, ''OK'')]"
    by (simp_all add: silent_world_def)
  have "\<forall>e\<in>set (gsm_rx silent_world). snd e = [] \<or> fst e \<le> now silent_world
          \<or> now silent_world + 2000 \<le> fst e"
    by (simp add: silent_world_def)
  then have b: "\<exists>w'. send_at_command ''AT'' 1000 2000 silent_world = Some ([], w')
           \<and> check_gsm_module silent_world = Some (False, w')"
    using check_gsm_module_ok [of silent_world] by blast
  from a s b show ?thesis
    by (intro conjI)
qed





text \<open>
  \<^bold>\<open>C4\<close>. The two flags only go forward. Any number of passes of the loop, from any state,
  returns; a flag that was set before is set after. In a state with \<open>gsm_connected\<close> set
  the registration check does nothing at any time (it is never run again), and in a state
  with \<open>gps_fix_acquired\<close> set the fix check does nothing, whatever the decoder reports.
  So each flag changes at most once, from unset to set.
\<close>

theorem flags_forward_only:
  "\<exists>s'. ticks e n s = Some s'
     \<and> (gsm_connected s \<longrightarrow> gsm_connected s')
     \<and> (gps_fix_acquired s \<longrightarrow> gps_fix_acquired s')
     \<and> (gsm_connected s' \<longrightarrow> (\<forall>t. check_gsm_network t s' = Some s'))
     \<and> (gps_fix_acquired s' \<longrightarrow> check_gps_fix s' = Some s')"
proof (induction n arbitrary: s)
  case 0
  show ?case
    by (simp add: check_gsm_network_def check_gps_fix_def)
next
  case (Suc n)
  obtain s1 where 1: "tick e s = Some s1" "gsm_connected s \<longrightarrow> gsm_connected s1"
    "gps_fix_acquired s1 \<longleftrightarrow> gps_fix_acquired s
           \<or> (fix_type (gps_parser s1) \<ge> 2 \<and> has_valid_gps_data (gps_parser s1))"
    using tick_fields [of e s] by blast
  obtain s' where 2: "ticks e n s1 = Some s'" "gsm_connected s1 \<longrightarrow> gsm_connected s'"
    "gps_fix_acquired s1 \<longrightarrow> gps_fix_acquired s'"
    "gsm_connected s' \<longrightarrow> (\<forall>t. check_gsm_network t s' = Some s')"
    "gps_fix_acquired s' \<longrightarrow> check_gps_fix s' = Some s'"
    using Suc [of s1] by blast
  have "ticks e (Suc n) s = Some s'"
    using 1(1) 2(1) by simp
  moreover have "gsm_connected s \<longrightarrow> gsm_connected s'"
    using 1(2) 2(2) by simp
  moreover have "gps_fix_acquired s \<longrightarrow> gps_fix_acquired s'"
    using 1(3) 2(3) by simp
  ultimately show ?case
    using 2(4,5) by blast
qed

text \<open>C4 on the registered board with the fix latched: the decoder drops the fix in the
  first of two passes, and both flags are still set after them.\<close>

theorem flags_forward_only_witness:
  "gsm_connected locked_state \<and> gps_fix_acquired locked_state
   \<and> ticks losing_ext 2 locked_state
       = Some (locked_state\<lparr>gps_parser := fixed_gps\<lparr>fix_type := 1, latitude := Some 0, longitude := Some 0\<rparr>,
                 world := \<lparr>now = 70100, gsm_rx = [], gsm_tx = [], gps_rx = [], stdin = [],
                           has_select = True\<rparr>\<rparr>)
   \<and> check_gsm_network 70100
        (locked_state\<lparr>gps_parser := fixed_gps\<lparr>fix_type := 1, latitude := Some 0, longitude := Some 0\<rparr>,
           world := \<lparr>now = 70100, gsm_rx = [], gsm_tx = [], gps_rx = [], stdin = [],
                     has_select = True\<rparr>\<rparr>)
       = Some (locked_state\<lparr>gps_parser := fixed_gps\<lparr>fix_type := 1, latitude := Some 0, longitude := Some 0\<rparr>,
                 world := \<lparr>now = 70100, gsm_rx = [], gsm_tx = [], gps_rx = [], stdin = [],
                           has_select = True\<rparr>\<rparr>)
   \<and> gsm_connected
        (locked_state\<lparr>gps_parser := fixed_gps\<lparr>fix_type := 1, latitude := Some 0, longitude := Some 0\<rparr>,
           world := \<lparr>now = 70100, gsm_rx = [], gsm_tx = [], gps_rx = [], stdin = [],
                     has_select = True\<rparr>\<rparr>)
   \<and> gps_fix_acquired
        (locked_state\<lparr>gps_parser := fixed_gps\<lparr>fix_type := 1, latitude := Some 0, longitude := Some 0\<rparr>,
           world := \<lparr>now = 70100, gsm_rx = [], gsm_tx = [], gps_rx = [], stdin = [],
                     has_select = True\<rparr>\<rparr>)"
proof -
  let ?s' = "locked_state\<lparr>gps_parser := fixed_gps\<lparr>fix_type := 1, latitude := Some 0, longitude := Some 0\<rparr>,
                 world := \<lparr>now = 70100, gsm_rx = [], gsm_tx = [], gps_rx = [], stdin = [],
                           has_select = True\<rparr>\<rparr>"
  have c: "gsm_connected locked_state" "gps_fix_acquired locked_state"
    by (simp_all add: locked_state_def)
  have e: "ticks losing_ext 2 locked_state = Some ?s'"
    by code_simp
  have f: "gsm_connected ?s' \<and> gps_fix_acquired ?s' \<and> check_gsm_network 70100 ?s' = Some ?s'"
    using flags_forward_only [of losing_ext 2 locked_state] c unfolding e by auto
  from c e f show ?thesis
    by (intro conjI) simp_all
qed

text \<open>
  \<^bold>\<open>C5\<close>. The anchor \<open>last_location_sent_ms\<close>. One pass of the loop returns, and it leaves the
  anchor as it was unless the network became registered in this pass, or the board was
  registered, had a fix with valid data and the interval had elapsed: then the anchor is
  the time read at the start of the pass. A call of \<open>send_sms\<close>, the fix notification, the
  reply to an incoming SMS and the console commands never change it. The registration
  check, when it is due, sets the anchor exactly when the answer of the modem is a
  registered one. The report stage, when the board is registered with a fix and valid data
  and the interval has elapsed, makes one call of \<open>send_sms\<close> to the administrator with the
  location text, which writes the two commands and then the text or the byte 0x1B, and
  sets the anchor whatever the call returned; in every other case it does nothing. So a
  transport that always fails gets one attempt per interval.
\<close>

theorem location_anchor_writes:
  "(\<exists>s'. tick e s = Some s'
      \<and> last_location_sent_ms s'
          = (if (\<not> gsm_connected s \<and> gsm_connected s')
                \<or> (gsm_connected s \<and> gps_fix_acquired s' \<and> has_valid_gps_data (gps_parser s')
                    \<and> ticks_diff (ticks_ms (world s)) (last_location_sent_ms s) \<ge> LOCATION_INTERVAL_MS)
             then ticks_ms (world s) else last_location_sent_ms s))
   \<and> (\<forall>number message ok s'. send_sms number message s = Some (ok, s')
         \<longrightarrow> last_location_sent_ms s' = last_location_sent_ms s)
   \<and> (\<forall>s'. check_gps_fix s = Some s' \<longrightarrow> last_location_sent_ms s' = last_location_sent_ms s)
   \<and> (\<forall>s'. check_incoming_sms e s = Some s' \<longrightarrow> last_location_sent_ms s' = last_location_sent_ms s)
   \<and> (\<forall>s'. console_commands s = Some s' \<longrightarrow> last_location_sent_ms s' = last_location_sent_ms s)
   \<and> (\<forall>t s'. check_gsm_network t s = Some s'
         \<longrightarrow> last_location_sent_ms s'
             = (if \<not> gsm_connected s \<and> gsm_connected s' then t else last_location_sent_ms s))
   \<and> (\<forall>t response w1.
         gsm_initialized s \<and> \<not> gsm_connected s
         \<and> GSM_CHECK_INTERVAL_MS \<le> ticks_diff t (last_gsm_check_ms s)
         \<and> send_at_command ''AT+CREG?'' 500 2000 (world s) = Some (response, w1)
         \<longrightarrow> (\<exists>s'. check_gsm_network t s = Some s'
                \<and> (gsm_connected s'
                     \<longleftrightarrow> sublist ''+CREG: 0,1'' response \<or> sublist ''+CREG: 0,5'' response)
                \<and> last_location_sent_ms s'
                    = (if sublist ''+CREG: 0,1'' response \<or> sublist ''+CREG: 0,5'' response
                       then t else last_location_sent_ms s)))
   \<and> (\<forall>t s'. interval_report e t s = Some s'
         \<longrightarrow> last_location_sent_ms s'
             = (if gsm_connected s \<and> gps_fix_acquired s \<and> has_valid_gps_data (gps_parser s)
                   \<and> ticks_diff t (last_location_sent_ms s) \<ge> LOCATION_INTERVAL_MS
                then t else last_location_sent_ms s))
   \<and> (\<forall>t. gsm_connected s \<and> gps_fix_acquired s \<and> has_valid_gps_data (gps_parser s)
            \<and> ticks_diff t (last_location_sent_ms s) \<ge> LOCATION_INTERVAL_MS
         \<longrightarrow> (\<exists>ok s1. send_sms ADMIN_NUMBER (get_current_location_string e (gps_parser s)) s
                          = Some (ok, s1)
                \<and> interval_report e t s = Some (s1\<lparr>last_location_sent_ms := t\<rparr>)
                \<and> (gsm_tx (world s1) = gsm_tx (world s)
                       @ [''AT+CMGF=1'' @ [CHR 0x0D, CHR 0x0A], cmgs_command ADMIN_NUMBER,
                          get_current_location_string e (gps_parser s), CTRL_Z]
                   \<or> gsm_tx (world s1) = gsm_tx (world s)
                       @ [''AT+CMGF=1'' @ [CHR 0x0D, CHR 0x0A], cmgs_command ADMIN_NUMBER, ESC])))
   \<and> (\<forall>t. \<not> (gsm_connected s \<and> gps_fix_acquired s \<and> has_valid_gps_data (gps_parser s)
               \<and> ticks_diff t (last_location_sent_ms s) \<ge> LOCATION_INTERVAL_MS)
         \<longrightarrow> interval_report e t s = Some s)
   \<and> (\<forall>t. ticks_diff t (last_location_sent_ms s) < LOCATION_INTERVAL_MS
         \<longrightarrow> interval_report e t s = Some s)"
proof -
  have c1: "\<exists>s'. tick e s = Some s'
      \<and> last_location_sent_ms s'
          = (if (\<not> gsm_connected s \<and> gsm_connected s')
                \<or> (gsm_connected s \<and> gps_fix_acquired s' \<and> has_valid_gps_data (gps_parser s')
                    \<and> ticks_diff (ticks_ms (world s)) (last_location_sent_ms s) \<ge> LOCATION_INTERVAL_MS)
             then ticks_ms (world s) else last_location_sent_ms s)"
    using tick_fields [of e s] by blast
  have c2: "last_location_sent_ms s' = last_location_sent_ms s"
    if "send_sms number message s = Some (ok, s')" for number message ok s'
    using that by (rule send_sms_fields)
  have c3: "last_location_sent_ms s' = last_location_sent_ms s" if "check_gps_fix s = Some s'" for s'
    using that by (rule check_gps_fix_fields)
  have c4: "last_location_sent_ms s' = last_location_sent_ms s"
    if "check_incoming_sms e s = Some s'" for s'
    using that by (rule check_incoming_sms_fields)
  have c5: "last_location_sent_ms s' = last_location_sent_ms s" if "console_commands s = Some s'" for s'
    using that by (rule console_commands_fields)
  have c6: "last_location_sent_ms s'
             = (if \<not> gsm_connected s \<and> gsm_connected s' then t else last_location_sent_ms s)"
    if "check_gsm_network t s = Some s'" for t s'
    using that by (rule check_gsm_network_fields)
  have c7: "\<exists>s'. check_gsm_network t s = Some s'
                \<and> (gsm_connected s'
                     \<longleftrightarrow> sublist ''+CREG: 0,1'' response \<or> sublist ''+CREG: 0,5'' response)
                \<and> last_location_sent_ms s'
                    = (if sublist ''+CREG: 0,1'' response \<or> sublist ''+CREG: 0,5'' response
                       then t else last_location_sent_ms s)"
    if a: "gsm_initialized s \<and> \<not> gsm_connected s
         \<and> GSM_CHECK_INTERVAL_MS \<le> ticks_diff t (last_gsm_check_ms s)
         \<and> send_at_command ''AT+CREG?'' 500 2000 (world s) = Some (response, w1)"
    for t response w1
  proof -
    from a have p: "gsm_initialized s" "\<not> gsm_connected s"
      "GSM_CHECK_INTERVAL_MS \<le> ticks_diff t (last_gsm_check_ms s)"
      "send_at_command ''AT+CREG?'' 500 2000 (world s) = Some (response, w1)"
      by blast+
    note d = check_gsm_network_due [OF p]
    show ?thesis
    proof (cases "sublist ''+CREG: 0,1'' response \<or> sublist ''+CREG: 0,5'' response")
      case True
      then obtain ok s2 where
        "check_gsm_network t s = Some (s2\<lparr>last_location_sent_ms := t, last_gsm_check_ms := t\<rparr>)"
        "gsm_connected s2"
        using d(1) by blast
      with True show ?thesis by simp
    next
      case False
      then have "check_gsm_network t s = Some (s\<lparr>world := w1, last_gsm_check_ms := t\<rparr>)"
        by (rule d(2))
      with False p(2) show ?thesis by simp
    qed
  qed
  have c8: "last_location_sent_ms s'
             = (if gsm_connected s \<and> gps_fix_acquired s \<and> has_valid_gps_data (gps_parser s)
                   \<and> ticks_diff t (last_location_sent_ms s) \<ge> LOCATION_INTERVAL_MS
                then t else last_location_sent_ms s)"
    if "interval_report e t s = Some s'" for t s'
    using that by (rule interval_report_fields)
  have c9: "\<exists>ok s1. send_sms ADMIN_NUMBER (get_current_location_string e (gps_parser s)) s
                          = Some (ok, s1)
                \<and> interval_report e t s = Some (s1\<lparr>last_location_sent_ms := t\<rparr>)
                \<and> (gsm_tx (world s1) = gsm_tx (world s)
                       @ [''AT+CMGF=1'' @ [CHR 0x0D, CHR 0x0A], cmgs_command ADMIN_NUMBER,
                          get_current_location_string e (gps_parser s), CTRL_Z]
                   \<or> gsm_tx (world s1) = gsm_tx (world s)
                       @ [''AT+CMGF=1'' @ [CHR 0x0D, CHR 0x0A], cmgs_command ADMIN_NUMBER, ESC])"
    if due: "gsm_connected s \<and> gps_fix_acquired s \<and> has_valid_gps_data (gps_parser s)
            \<and> ticks_diff t (last_location_sent_ms s) \<ge> LOCATION_INTERVAL_MS"
    for t
  proof -
    from due have g: "gsm_connected s"
      by blast
    obtain ok s1 where m:
      "send_sms ADMIN_NUMBER (get_current_location_string e (gps_parser s)) s = Some (ok, s1)"
      "gsm_tx (world s1) = gsm_tx (world s)
          @ [''AT+CMGF=1'' @ [CHR 0x0D, CHR 0x0A], cmgs_command ADMIN_NUMBER,
             get_current_location_string e (gps_parser s), CTRL_Z]
       \<or> gsm_tx (world s1) = gsm_tx (world s)
          @ [''AT+CMGF=1'' @ [CHR 0x0D, CHR 0x0A], cmgs_command ADMIN_NUMBER, ESC]"
      using send_sms_tx [OF g, of ADMIN_NUMBER "get_current_location_string e (gps_parser s)"]
      by blast
    have "interval_report e t s = Some (s1\<lparr>last_location_sent_ms := t\<rparr>)"
      using due m(1) by (simp add: interval_report_def)
    with m show ?thesis
      by (intro exI [of _ ok] exI [of _ s1]) simp
  qed
  have c10: "interval_report e t s = Some s"
    if "\<not> (gsm_connected s \<and> gps_fix_acquired s \<and> has_valid_gps_data (gps_parser s)
               \<and> ticks_diff t (last_location_sent_ms s) \<ge> LOCATION_INTERVAL_MS)"
    for t
    using that by (auto simp: interval_report_def)
  have c11: "interval_report e t s = Some s"
    if "ticks_diff t (last_location_sent_ms s) < LOCATION_INTERVAL_MS" for t
    using that by (simp add: interval_report_def)
  show ?thesis
    apply (intro conjI allI impI)
              apply (rule c1)
             apply (erule c2)
            apply (erule c3)
           apply (erule c4)
          apply (erule c5)
         apply (erule c6)
        apply (erule c7)
       apply (erule c8)
      apply (erule c9)
     apply (erule c10)
    apply (erule c11)
    done
qed

text \<open>C5 on two boards. On the board whose report is due and whose modem never prompts,
  the pass started at 70000 makes its attempt, which fails with the byte 0x1B, and sets
  the anchor to 70000; at the next pass, 5750 ms later, the report stage does nothing. On
  the board whose modem answers the registration query with the home status, the check at
  70000 sets the anchor to 70000.\<close>

theorem location_anchor_writes_witness:
  "tick plain_ext due_state
     = Some (due_state\<lparr>last_location_sent_ms := 70000,
               world := no_prompt_world\<lparr>now := 75750, gsm_rx := [],
                 gsm_tx := [''AT+CMGF=1'' @ [CHR 0x0D, CHR 0x0A], cmgs_command ADMIN_NUMBER, ESC]\<rparr>\<rparr>)
   \<and> ticks_diff 75750 70000 < LOCATION_INTERVAL_MS
   \<and> interval_report plain_ext 75750
       (due_state\<lparr>last_location_sent_ms := 70000,
          world := no_prompt_world\<lparr>now := 75750, gsm_rx := [],
            gsm_tx := [''AT+CMGF=1'' @ [CHR 0x0D, CHR 0x0A], cmgs_command ADMIN_NUMBER, ESC]\<rparr>\<rparr>)
     = Some (due_state\<lparr>last_location_sent_ms := 70000,
               world := no_prompt_world\<lparr>now := 75750, gsm_rx := [],
                 gsm_tx := [''AT+CMGF=1'' @ [CHR 0x0D, CHR 0x0A], cmgs_command ADMIN_NUMBER, ESC]\<rparr>\<rparr>)
   \<and> (\<exists>ok s1. send_sms ADMIN_NUMBER (get_current_location_string plain_ext (gps_parser due_state))
                  due_state = Some (ok, s1)
          \<and> interval_report plain_ext 70000 due_state = Some (s1\<lparr>last_location_sent_ms := 70000\<rparr>))
   \<and> map_option (\<lambda>s'. (gsm_connected s', last_location_sent_ms s'))
        (check_gsm_network 70000 fix_first_state) = Some (True, 70000)"
proof -
  let ?s' = "due_state\<lparr>last_location_sent_ms := 70000,
               world := no_prompt_world\<lparr>now := 75750, gsm_rx := [],
                 gsm_tx := [''AT+CMGF=1'' @ [CHR 0x0D, CHR 0x0A], cmgs_command ADMIN_NUMBER, ESC]\<rparr>\<rparr>"
  have e: "tick plain_ext due_state = Some ?s'"
    by code_simp
  have d: "ticks_diff 75750 70000 < LOCATION_INTERVAL_MS"
    by (simp add: ticks_diff_def TICKS_PERIOD_def LOCATION_INTERVAL_MS_def)
  then have "ticks_diff 75750 (last_location_sent_ms ?s') < LOCATION_INTERVAL_MS"
    by simp
  then have i: "interval_report plain_ext 75750 ?s' = Some ?s'"
    using location_anchor_writes [of plain_ext ?s'] by blast
  have "gsm_connected due_state \<and> gps_fix_acquired due_state
          \<and> has_valid_gps_data (gps_parser due_state)
          \<and> ticks_diff 70000 (last_location_sent_ms due_state) \<ge> LOCATION_INTERVAL_MS"
    by (simp add: due_state_def fixed_gps_def has_valid_gps_data_def ticks_diff_def
        TICKS_PERIOD_def LOCATION_INTERVAL_MS_def)
  then have a: "\<exists>ok s1. send_sms ADMIN_NUMBER (get_current_location_string plain_ext (gps_parser due_state))
                  due_state = Some (ok, s1)
          \<and> interval_report plain_ext 70000 due_state = Some (s1\<lparr>last_location_sent_ms := 70000\<rparr>)"
    using location_anchor_writes [of plain_ext due_state] by blast
  have r: "map_option (\<lambda>s'. (gsm_connected s', last_location_sent_ms s'))
        (check_gsm_network 70000 fix_first_state) = Some (True, 70000)"
    by code_simp
  from e d i a r show ?thesis
    by (intro conjI)
qed

text \<open>
  \<^bold>\<open>C1\<close>, as the program has it. \<open>has_valid_gps_data\<close> is true exactly when latitude and
  longitude are both present and non-zero: it does not look at the fix quality, and it
  follows the decoder, so it can be true below a 2D fix and false again after a fix. What
  stays is the flag \<open>gps_fix_acquired\<close>: any number \<open>n\<close> of passes of the loop returns, and
  the flag is set afterwards exactly when it was set before or, in one of these passes,
  the decoder reported a fix type of at least 2 with valid data once the bytes of that
  pass were fed to it.
\<close>

theorem gps_fix_latch:
  "(has_valid_gps_data g
      \<longleftrightarrow> (\<exists>lat lon. latitude g = Some lat \<and> longitude g = Some lon \<and> lat \<noteq> 0 \<and> lon \<noteq> 0))
   \<and> (\<exists>s'. ticks e n s = Some s'
        \<and> (gps_fix_acquired s'
             \<longleftrightarrow> gps_fix_acquired s
                 \<or> (\<exists>k<n. \<exists>sk. ticks e k s = Some sk
                        \<and> fix_type (gps_parser (process_gps e sk)) \<ge> 2
                        \<and> has_valid_gps_data (gps_parser (process_gps e sk)))))"
proof
  show "has_valid_gps_data g
      \<longleftrightarrow> (\<exists>lat lon. latitude g = Some lat \<and> longitude g = Some lon \<and> lat \<noteq> 0 \<and> lon \<noteq> 0)"
    by (auto simp: has_valid_gps_data_def)
  show "\<exists>s'. ticks e n s = Some s'
        \<and> (gps_fix_acquired s'
             \<longleftrightarrow> gps_fix_acquired s
                 \<or> (\<exists>k<n. \<exists>sk. ticks e k s = Some sk
                        \<and> fix_type (gps_parser (process_gps e sk)) \<ge> 2
                        \<and> has_valid_gps_data (gps_parser (process_gps e sk))))"
  proof (induction n arbitrary: s)
    case 0
    show ?case by simp
  next
    case (Suc n)
    let ?P = "\<lambda>sk. fix_type (gps_parser (process_gps e sk)) \<ge> 2
                        \<and> has_valid_gps_data (gps_parser (process_gps e sk))"
    obtain s1 where 1: "tick e s = Some s1" "gps_parser s1 = gps_parser (process_gps e s)"
      "gps_fix_acquired s1 \<longleftrightarrow> gps_fix_acquired s
           \<or> (fix_type (gps_parser s1) \<ge> 2 \<and> has_valid_gps_data (gps_parser s1))"
      using tick_fields [of e s] by blast
    obtain s' where 2: "ticks e n s1 = Some s'"
      "gps_fix_acquired s' \<longleftrightarrow> gps_fix_acquired s1 \<or> (\<exists>k<n. \<exists>sk. ticks e k s1 = Some sk \<and> ?P sk)"
      using Suc [of s1] by blast
    have t: "ticks e (Suc k) s = ticks e k s1" for k
      using 1(1) by simp
    have "(\<exists>k<Suc n. \<exists>sk. ticks e k s = Some sk \<and> ?P sk)
        \<longleftrightarrow> ?P s \<or> (\<exists>k<n. \<exists>sk. ticks e k s1 = Some sk \<and> ?P sk)"
    proof
      assume "\<exists>k<Suc n. \<exists>sk. ticks e k s = Some sk \<and> ?P sk"
      then obtain k sk where k: "k < Suc n" "ticks e k s = Some sk" "?P sk"
        by blast
      show "?P s \<or> (\<exists>k<n. \<exists>sk. ticks e k s1 = Some sk \<and> ?P sk)"
      proof (cases k)
        case 0
        with k show ?thesis by simp
      next
        case (Suc j)
        with k have "j < n" "ticks e j s1 = Some sk"
          using t [of j] by simp_all
        with k(3) show ?thesis by blast
      qed
    next
      assume "?P s \<or> (\<exists>k<n. \<exists>sk. ticks e k s1 = Some sk \<and> ?P sk)"
      then show "\<exists>k<Suc n. \<exists>sk. ticks e k s = Some sk \<and> ?P sk"
      proof
        assume "?P s"
        then have "0 < Suc n \<and> ticks e 0 s = Some s \<and> ?P s"
          by simp
        then show ?thesis by blast
      next
        assume "\<exists>k<n. \<exists>sk. ticks e k s1 = Some sk \<and> ?P sk"
        then obtain k sk where "k < n" "ticks e k s1 = Some sk" "?P sk"
          by blast
        then have "Suc k < Suc n \<and> ticks e (Suc k) s = Some sk \<and> ?P sk"
          using t [of k] by simp
        then show ?thesis by blast
      qed
    qed
    moreover have "ticks e (Suc n) s = Some s'"
      using 1(1) 2(1) by simp
    ultimately show ?case
      using 1(2,3) 2(2) by auto
  qed
qed

text \<open>C1 on the board that holds a 3D fix before registration: the flag is unset before
  the pass and set after it.\<close>

theorem gps_fix_latch_witness:
  "\<not> gps_fix_acquired fix_first_state
   \<and> fix_type (gps_parser (process_gps plain_ext fix_first_state)) \<ge> 2
   \<and> has_valid_gps_data (gps_parser (process_gps plain_ext fix_first_state))
   \<and> (\<exists>s'. ticks plain_ext 1 fix_first_state = Some s' \<and> gps_fix_acquired s')"
proof -
  have p: "fix_type (gps_parser (process_gps plain_ext fix_first_state)) \<ge> 2"
    "has_valid_gps_data (gps_parser (process_gps plain_ext fix_first_state))"
    by (simp_all add: process_gps_def fix_first_state_def registering_world_def gps_any_def
        arrived_def fixed_gps_def has_valid_gps_data_def)
  have n: "\<not> gps_fix_acquired fix_first_state"
    by (simp add: fix_first_state_def)
  have "(0::nat) < 1 \<and> ticks plain_ext 0 fix_first_state = Some fix_first_state"
    by simp
  with p have "\<exists>k<1. \<exists>sk. ticks plain_ext k fix_first_state = Some sk
                        \<and> fix_type (gps_parser (process_gps plain_ext sk)) \<ge> 2
                        \<and> has_valid_gps_data (gps_parser (process_gps plain_ext sk))"
    by blast
  then have "\<exists>s'. ticks plain_ext 1 fix_first_state = Some s' \<and> gps_fix_acquired s'"
    using gps_fix_latch [of fixed_gps plain_ext 1 fix_first_state] by blast
  with n p show ?thesis
    by (intro conjI)
qed

text \<open>Against C1 as stated: with the coordinates of the fix and a fix type of 1,
  \<open>has_valid_gps_data\<close> is true; and on the board with the fix latched, one pass with a
  decoder that drops the fix leaves \<open>has_valid_gps_data\<close> false, where it was true before.\<close>

theorem has_valid_gps_data_counterexample:
  "fix_type (fixed_gps\<lparr>fix_type := 1\<rparr>) < 2 \<and> has_valid_gps_data (fixed_gps\<lparr>fix_type := 1\<rparr>)
   \<and> has_valid_gps_data (gps_parser locked_state)
   \<and> map_option (\<lambda>s'. (gps_fix_acquired s', has_valid_gps_data (gps_parser s')))
       (tick losing_ext locked_state) = Some (True, False)"
proof -
  have a: "fix_type (fixed_gps\<lparr>fix_type := 1\<rparr>) < 2" "has_valid_gps_data (fixed_gps\<lparr>fix_type := 1\<rparr>)"
    "has_valid_gps_data (gps_parser locked_state)"
    by (simp_all add: fixed_gps_def has_valid_gps_data_def locked_state_def)
  have b: "map_option (\<lambda>s'. (gps_fix_acquired s', has_valid_gps_data (gps_parser s')))
       (tick losing_ext locked_state) = Some (True, False)"
    by code_simp
  from a b show ?thesis
    by (intro conjI)
qed

text \<open>
  \<^bold>\<open>C6\<close>, as the program has it. Let the decoder hold a fix (fix type at least 2, valid data)
  that is not latched yet. If the network is not registered, the fix check latches the fix
  and writes nothing; the registration check that follows returns with the fix latched and
  has written nothing, or the query alone, or the query and the dialogue of the SMS
  \<^verbatim>\<open>Vehicle Tracking System is online.\<close> (ended by Ctrl+Z, or given up with the byte 0x1B);
  after it the fix check and the report stage of the same pass do nothing. So a fix that
  comes before registration is never announced. If the network is registered already, the
  fix check is one call of \<open>send_sms\<close> to the administrator with the fixed text
  \<^verbatim>\<open>GPS fix acquired. Vehicle tracking active.\<close>, which holds no location.
\<close>

theorem fix_before_registration:
  assumes "\<not> gps_fix_acquired s" and "fix_type (gps_parser s) \<ge> 2"
    and "has_valid_gps_data (gps_parser s)"
  shows "(\<not> gsm_connected s \<longrightarrow>
            check_gps_fix s = Some (s\<lparr>gps_fix_acquired := True, gps_led := True\<rparr>)
          \<and> (\<exists>s2. check_gsm_network t (s\<lparr>gps_fix_acquired := True, gps_led := True\<rparr>) = Some s2
                \<and> gps_fix_acquired s2 \<and> check_gps_fix s2 = Some s2
                \<and> interval_report e t s2 = Some s2
                \<and> (gsm_tx (world s2) = gsm_tx (world s)
                   \<or> gsm_tx (world s2) = gsm_tx (world s) @ [''AT+CREG?'' @ [CHR 0x0D, CHR 0x0A]]
                   \<or> gsm_tx (world s2) = gsm_tx (world s)
                        @ [''AT+CREG?'' @ [CHR 0x0D, CHR 0x0A], ''AT+CMGF=1'' @ [CHR 0x0D, CHR 0x0A],
                           cmgs_command ADMIN_NUMBER, ''Vehicle Tracking System is online.'', CTRL_Z]
                   \<or> gsm_tx (world s2) = gsm_tx (world s)
                        @ [''AT+CREG?'' @ [CHR 0x0D, CHR 0x0A], ''AT+CMGF=1'' @ [CHR 0x0D, CHR 0x0A],
                           cmgs_command ADMIN_NUMBER, ESC])))
       \<and> (gsm_connected s \<longrightarrow>
            check_gps_fix s
              = map_option snd (send_sms ADMIN_NUMBER ''GPS fix acquired. Vehicle tracking active.''
                                  (s\<lparr>gps_fix_acquired := True, gps_led := True\<rparr>)))"
proof (intro conjI impI)
  assume n: "\<not> gsm_connected s"
  let ?s1 = "s\<lparr>gps_fix_acquired := True, gps_led := True\<rparr>"
  show "check_gps_fix s = Some ?s1"
    using assms n by (simp add: check_gps_fix_def)
  obtain s2 where 2: "check_gsm_network t ?s1 = Some s2"
    "gsm_tx (world s2) = gsm_tx (world ?s1)
     \<or> gsm_tx (world s2) = gsm_tx (world ?s1) @ [''AT+CREG?'' @ [CHR 0x0D, CHR 0x0A]]
     \<or> gsm_tx (world s2) = gsm_tx (world ?s1)
          @ [''AT+CREG?'' @ [CHR 0x0D, CHR 0x0A], ''AT+CMGF=1'' @ [CHR 0x0D, CHR 0x0A],
             cmgs_command ADMIN_NUMBER, ''Vehicle Tracking System is online.'', CTRL_Z]
     \<or> gsm_tx (world s2) = gsm_tx (world ?s1)
          @ [''AT+CREG?'' @ [CHR 0x0D, CHR 0x0A], ''AT+CMGF=1'' @ [CHR 0x0D, CHR 0x0A],
             cmgs_command ADMIN_NUMBER, ESC]"
    using check_gsm_network_tx [of t ?s1] by blast
  note f = check_gsm_network_fields [OF 2(1)]
  have a: "gps_fix_acquired s2"
    using f(2) by simp
  then have g: "check_gps_fix s2 = Some s2"
    by (simp add: check_gps_fix_def)
  have "gsm_connected s2 \<longrightarrow> last_location_sent_ms s2 = t"
    using f(5) n by simp
  then have i: "interval_report e t s2 = Some s2"
    by (auto simp: interval_report_def ticks_diff_refl LOCATION_INTERVAL_MS_def)
  from 2 a g i
  show "\<exists>s2. check_gsm_network t ?s1 = Some s2
                \<and> gps_fix_acquired s2 \<and> check_gps_fix s2 = Some s2
                \<and> interval_report e t s2 = Some s2
                \<and> (gsm_tx (world s2) = gsm_tx (world s)
                   \<or> gsm_tx (world s2) = gsm_tx (world s) @ [''AT+CREG?'' @ [CHR 0x0D, CHR 0x0A]]
                   \<or> gsm_tx (world s2) = gsm_tx (world s)
                        @ [''AT+CREG?'' @ [CHR 0x0D, CHR 0x0A], ''AT+CMGF=1'' @ [CHR 0x0D, CHR 0x0A],
                           cmgs_command ADMIN_NUMBER, ''Vehicle Tracking System is online.'', CTRL_Z]
                   \<or> gsm_tx (world s2) = gsm_tx (world s)
                        @ [''AT+CREG?'' @ [CHR 0x0D, CHR 0x0A], ''AT+CMGF=1'' @ [CHR 0x0D, CHR 0x0A],
                           cmgs_command ADMIN_NUMBER, ESC])"
    by (intro exI [of _ s2]) simp
next
  assume "gsm_connected s"
  then show "check_gps_fix s
              = map_option snd (send_sms ADMIN_NUMBER ''GPS fix acquired. Vehicle tracking active.''
                                  (s\<lparr>gps_fix_acquired := True, gps_led := True\<rparr>))"
    using assms by (simp add: check_gps_fix_def)
qed

text \<open>C6 on the board that holds a 3D fix before registration: the fix is latched without
  a word to the modem.\<close>

theorem fix_before_registration_witness:
  "\<not> gps_fix_acquired fix_first_state \<and> fix_type (gps_parser fix_first_state) \<ge> 2
   \<and> has_valid_gps_data (gps_parser fix_first_state) \<and> \<not> gsm_connected fix_first_state
   \<and> check_gps_fix fix_first_state
       = Some (fix_first_state\<lparr>gps_fix_acquired := True, gps_led := True\<rparr>)"
proof -
  have c: "\<not> gps_fix_acquired fix_first_state" "fix_type (gps_parser fix_first_state) \<ge> 2"
    "has_valid_gps_data (gps_parser fix_first_state)"
    by (simp_all add: fix_first_state_def fixed_gps_def has_valid_gps_data_def)
  have n: "\<not> gsm_connected fix_first_state"
    by (simp add: fix_first_state_def)
  have "check_gps_fix fix_first_state
       = Some (fix_first_state\<lparr>gps_fix_acquired := True, gps_led := True\<rparr>)"
    using fix_before_registration [OF c, of 70000 plain_ext] n by blast
  with c n show ?thesis
    by (intro conjI)
qed

text \<open>Against C6 as stated: the board holds a 3D fix, and the registration check of the
  pass started at 70000 gets the home status. After this pass and the next one the board
  is registered with the fix latched, and all it has written is the query and the SMS
  \<^verbatim>\<open>Vehicle Tracking System is online.\<close>: there is no SMS about the fix, and none with a
  location.\<close>

theorem fix_acquired_sms_counterexample:
  "fix_type (gps_parser fix_first_state) = 3 \<and> has_valid_gps_data (gps_parser fix_first_state)
   \<and> map_option (\<lambda>s'. (gsm_connected s', gps_fix_acquired s', gsm_tx (world s')))
       (ticks plain_ext 2 fix_first_state)
     = Some (True, True,
             [''AT+CREG?'' @ [CHR 0x0D, CHR 0x0A], ''AT+CMGF=1'' @ [CHR 0x0D, CHR 0x0A],
              cmgs_command ADMIN_NUMBER, ''Vehicle Tracking System is online.'', CTRL_Z])"
proof -
  have a: "fix_type (gps_parser fix_first_state) = 3" "has_valid_gps_data (gps_parser fix_first_state)"
    by (simp_all add: fix_first_state_def fixed_gps_def has_valid_gps_data_def)
  have b: "map_option (\<lambda>s'. (gsm_connected s', gps_fix_acquired s', gsm_tx (world s')))
       (ticks plain_ext 2 fix_first_state)
     = Some (True, True,
             [''AT+CREG?'' @ [CHR 0x0D, CHR 0x0A], ''AT+CMGF=1'' @ [CHR 0x0D, CHR 0x0A],
              cmgs_command ADMIN_NUMBER, ''Vehicle Tracking System is online.'', CTRL_Z])"
    by code_simp
  from a b show ?thesis
    by (intro conjI)
qed

text \<open>
  \<^bold>\<open>C7\<close>, as the program has it. When the chunk read from the modem in the main loop
  contains \<^verbatim>\<open>+CMT:\<close> and, in lower case, \<^verbatim>\<open>location\<close>, the loop makes one call of \<open>send_sms\<close>
  to the administrator number with the current location text, whatever number the chunk
  names. On a board that is not registered the call writes nothing and no reply is sent.
  On a registered board the call writes the two commands of the dialogue, for the
  administrator number, and then either the location text and Ctrl+Z, or, when no prompt
  came, the byte 0x1B and no text.
\<close>

theorem check_incoming_sms_reply:
  assumes "gsm_any (world s)"
    and "str_in ''+CMT:'' (decode_ignore (fst (gsm_read (world s))))"
    and "str_in ''location'' (lower (decode_ignore (fst (gsm_read (world s)))))"
  shows "check_incoming_sms e s
           = map_option snd (send_sms ADMIN_NUMBER (get_current_location_string e (gps_parser s))
                               (s\<lparr>world := snd (gsm_read (world s))\<rparr>))
       \<and> (\<not> gsm_connected s
            \<longrightarrow> check_incoming_sms e s = Some (s\<lparr>world := snd (gsm_read (world s))\<rparr>))
       \<and> (gsm_connected s
            \<longrightarrow> (\<exists>s'. check_incoming_sms e s = Some s'
                   \<and> (gsm_tx (world s') = gsm_tx (world s)
                          @ [''AT+CMGF=1'' @ [CHR 0x0D, CHR 0x0A], cmgs_command ADMIN_NUMBER,
                             get_current_location_string e (gps_parser s), CTRL_Z]
                      \<or> gsm_tx (world s') = gsm_tx (world s)
                          @ [''AT+CMGF=1'' @ [CHR 0x0D, CHR 0x0A], cmgs_command ADMIN_NUMBER, ESC])))"
proof -
  let ?s1 = "s\<lparr>world := snd (gsm_read (world s))\<rparr>"
  let ?m = "get_current_location_string e (gps_parser s)"
  have eq: "check_incoming_sms e s = map_option snd (send_sms ADMIN_NUMBER ?m ?s1)"
    using assms by (simp add: check_incoming_sms_def Let_def)
  have off: "check_incoming_sms e s = Some ?s1" if "\<not> gsm_connected s"
    using that unfolding eq by (simp add: send_sms_def)
  have on: "\<exists>s'. check_incoming_sms e s = Some s'
                   \<and> (gsm_tx (world s') = gsm_tx (world s)
                          @ [''AT+CMGF=1'' @ [CHR 0x0D, CHR 0x0A], cmgs_command ADMIN_NUMBER, ?m, CTRL_Z]
                      \<or> gsm_tx (world s') = gsm_tx (world s)
                          @ [''AT+CMGF=1'' @ [CHR 0x0D, CHR 0x0A], cmgs_command ADMIN_NUMBER, ESC])"
    if "gsm_connected s"
  proof -
    have "gsm_connected ?s1"
      using that by simp
    then obtain ok s' where m: "send_sms ADMIN_NUMBER ?m ?s1 = Some (ok, s')"
      "gsm_tx (world s') = gsm_tx (world ?s1)
          @ [''AT+CMGF=1'' @ [CHR 0x0D, CHR 0x0A], cmgs_command ADMIN_NUMBER, ?m, CTRL_Z]
       \<or> gsm_tx (world s') = gsm_tx (world ?s1)
          @ [''AT+CMGF=1'' @ [CHR 0x0D, CHR 0x0A], cmgs_command ADMIN_NUMBER, ESC]"
      using send_sms_tx [of ?s1 ADMIN_NUMBER ?m] by blast
    have "check_incoming_sms e s = Some s'"
      unfolding eq using m(1) by simp
    with m(2) show ?thesis
      by (intro exI [of _ s']) simp
  qed
  from eq off on show ?thesis
    by blast
qed

text \<open>C7 on the registered board that has just received the request: the reply goes to
  the administrator number, not to the number in the request.\<close>

theorem check_incoming_sms_reply_witness:
  "gsm_any (world request_state)
   \<and> str_in ''+CMT:'' (decode_ignore (fst (gsm_read (world request_state))))
   \<and> str_in ''location'' (lower (decode_ignore (fst (gsm_read (world request_state)))))
   \<and> gsm_connected request_state
   \<and> map_option (\<lambda>s'. gsm_tx (world s')) (check_incoming_sms plain_ext request_state)
       = Some [''AT+CMGF=1'' @ [CHR 0x0D, CHR 0x0A], cmgs_command ADMIN_NUMBER,
               get_current_location_string plain_ext fixed_gps, CTRL_Z]
   \<and> check_incoming_sms plain_ext request_state
       = map_option snd (send_sms ADMIN_NUMBER (get_current_location_string plain_ext (gps_parser request_state))
                           (request_state\<lparr>world := snd (gsm_read (world request_state))\<rparr>))"
proof -
  have c: "gsm_any (world request_state)"
    "str_in ''+CMT:'' (decode_ignore (fst (gsm_read (world request_state))))"
    "str_in ''location'' (lower (decode_ignore (fst (gsm_read (world request_state)))))"
    by code_simp+
  have g: "gsm_connected request_state"
    by (simp add: request_state_def)
  have e: "map_option (\<lambda>s'. gsm_tx (world s')) (check_incoming_sms plain_ext request_state)
       = Some [''AT+CMGF=1'' @ [CHR 0x0D, CHR 0x0A], cmgs_command ADMIN_NUMBER,
               get_current_location_string plain_ext fixed_gps, CTRL_Z]"
    by code_simp
  have "check_incoming_sms plain_ext request_state
       = map_option snd (send_sms ADMIN_NUMBER (get_current_location_string plain_ext (gps_parser request_state))
                           (request_state\<lparr>world := snd (gsm_read (world request_state))\<rparr>))"
    using check_incoming_sms_reply [OF c, of plain_ext] by blast
  with c g e show ?thesis
    by (intro conjI)
qed

text \<open>Against C7 as stated: on the unregistered board the same request is read and
  nothing at all is written to the modem, so no reply SMS is sent.\<close>

theorem check_incoming_sms_counterexample:
  "gsm_any (world unregistered_state)
   \<and> str_in ''+CMT:'' (decode_ignore (fst (gsm_read (world unregistered_state))))
   \<and> str_in ''location'' (lower (decode_ignore (fst (gsm_read (world unregistered_state)))))
   \<and> check_incoming_sms plain_ext unregistered_state
       = Some (unregistered_state\<lparr>world := quiet_world\<lparr>gsm_rx := []\<rparr>\<rparr>)
   \<and> gsm_tx (quiet_world\<lparr>gsm_rx := []\<rparr>) = []"
proof -
  have c: "gsm_any (world unregistered_state)"
    "str_in ''+CMT:'' (decode_ignore (fst (gsm_read (world unregistered_state))))"
    "str_in ''location'' (lower (decode_ignore (fst (gsm_read (world unregistered_state)))))"
    by code_simp+
  have e: "check_incoming_sms plain_ext unregistered_state
       = Some (unregistered_state\<lparr>world := quiet_world\<lparr>gsm_rx := []\<rparr>\<rparr>)"
    by code_simp
  have t: "gsm_tx (quiet_world\<lparr>gsm_rx := []\<rparr>) = []"
    by (simp add: quiet_world_def)
  from c e t show ?thesis
    by (intro conjI)
qed

end
